theory Spec2Isabelle
  imports Main "HOL-Library.Char_ord" "HOL-Library.List_Lexorder"
begin

section \<open>Python strings\<close>

text \<open>
  Text is modelled as \<^typ>\<open>string\<close>: a list of characters with code points 0..255, whose
  \<^const>\<open>length\<close> is the number of characters, as Python's \<open>len\<close> is. The operations below
  are the Python string methods the two converters call.
\<close>

definition is_space :: "char \<Rightarrow> bool" where
  \<comment> \<open>\<open>str.isspace\<close> on the code points below 256\<close>
  "is_space c = (of_char c \<in> {9, 10, 11, 12, 13, 28, 29, 30, 31, 32, 133, 160 :: nat})"

definition lstrip :: "string \<Rightarrow> string" where
  "lstrip s = dropWhile is_space s"

definition rstrip :: "string \<Rightarrow> string" where
  "rstrip s = rev (dropWhile is_space (rev s))"

definition strip :: "string \<Rightarrow> string" where
  \<comment> \<open>\<open>s.strip()\<close>\<close>
  "strip s = rstrip (lstrip s)"

definition startswith :: "string \<Rightarrow> string \<Rightarrow> bool" where
  \<comment> \<open>\<open>s.startswith(p)\<close>\<close>
  "startswith s p = (take (length p) s = p)"

fun contains :: "string \<Rightarrow> string \<Rightarrow> bool" where
  \<comment> \<open>\<open>p in s\<close>: \<open>p\<close> occurs in \<open>s\<close> as a contiguous substring\<close>
  "contains [] p = (p = [])"
| "contains (c # cs) p = (startswith (c # cs) p \<or> contains cs p)"

definition newline :: char where
  "newline = CHR 0x0A"

fun split_on :: "char \<Rightarrow> string \<Rightarrow> string list" where
  \<comment> \<open>\<open>s.split(sep)\<close> for a one-character \<open>sep\<close>: never empty, \<open>"".split(sep) == [""]\<close>\<close>
  "split_on sep [] = [[]]"
| "split_on sep (c # cs) =
     (if c = sep then [] # split_on sep cs
      else (case split_on sep cs of
              [] \<Rightarrow> [[c]]
            | l # ls \<Rightarrow> (c # l) # ls))"

definition split_nl :: "string \<Rightarrow> string list" where
  \<comment> \<open>\<open>s.split("\n")\<close>\<close>
  "split_nl s = split_on newline s"

fun join_nl :: "string list \<Rightarrow> string" where
  \<comment> \<open>\<open>"\n".join(ls)\<close>\<close>
  "join_nl [] = []"
| "join_nl [l] = l"
| "join_nl (l # l' # ls) = l @ newline # join_nl (l' # ls)"

definition digit_char :: "nat \<Rightarrow> char" where
  "digit_char d = char_of (48 + d)"

fun show_nat :: "nat \<Rightarrow> string" where
  \<comment> \<open>\<open>str(n)\<close> for a non-negative integer, as an f-string renders it\<close>
  "show_nat n = (if n < 10 then [digit_char n] else show_nat (n div 10) @ [digit_char (n mod 10)])"

declare show_nat.simps [simp del]

section \<open>Text normalizer: \<open>_collapse_code_blocks\<close>\<close>

text \<open>
  The function is the same, line for line, in \<open>convert_export.py\<close> (lines 55-105) and in
  \<open>convert_opencode.py\<close> (lines 27-77); one embedding serves both.
\<close>

definition is_fence :: "string \<Rightarrow> bool" where
  \<comment> \<open>\<open>line.strip().startswith("```")\<close>\<close>
  "is_fence line = startswith (strip line) ''```''"

definition indicators :: "string list" where
  "indicators = [''def '', ''class '', ''import '', ''function '', ''{'']"

definition is_file_dump :: "string \<Rightarrow> bool" where
  \<comment> \<open>\<open>len(line) > 500 and any(indicator in line for indicator in [...])\<close>\<close>
  "is_file_dump line = (length line > 500 \<and> list_ex (contains line) indicators)"

definition file_dump_placeholder :: string where
  "file_dump_placeholder = ''[file dump: long code output stripped]''"

fun block_label :: "string list \<Rightarrow> string" where
  \<comment> \<open>the value of \<open>first_line\<close> at the f-string, from \<open>code_lines\<close>\<close>
  "block_label [] = []"
| "block_label (l0 # ls) =
     (let first_line = strip l0;
          first_line = (if startswith first_line ''```'' then strip (drop 3 first_line)
                        else first_line)
      in if first_line = [] then (case ls of l1 # _ \<Rightarrow> strip l1 | [] \<Rightarrow> ''code'')
         else first_line)"

definition block_summary :: "string list \<Rightarrow> string" where
  \<comment> \<open>\<open>f"[code block: {first_line}... ({len(code_lines)} lines)]"\<close>\<close>
  "block_summary code_lines =
     ''[code block: '' @ block_label code_lines @ ''... ('' @
       show_nat (length code_lines) @ '' lines)]''"

fun collect_block :: "string list \<Rightarrow> string list \<times> string list" where
  \<comment> \<open>the inner \<open>while\<close> and the closing fence: the lines of the block after its opening
      fence, and the lines left after the block\<close>
  "collect_block [] = ([], [])"
| "collect_block (l # ls) =
     (if is_fence l then ([l], ls)
      else (case collect_block ls of (body, rest) \<Rightarrow> (l # body, rest)))"

lemma collect_block_length: "length (snd (collect_block ls)) \<le> length ls"
  by (induction ls) (auto split: prod.splits)

function collapse_loop :: "string list \<Rightarrow> string list" where
  \<comment> \<open>the outer \<open>while i < len(lines)\<close>, returning \<open>result\<close>\<close>
  "collapse_loop [] = []"
| "collapse_loop (line # ls) =
     (if is_fence line then
        (let code_lines = line # fst (collect_block ls);
             rest = snd (collect_block ls)
         in (if length code_lines > 10 then [block_summary code_lines] else code_lines)
            @ collapse_loop rest)
      else (if is_file_dump line then file_dump_placeholder else line) # collapse_loop ls)"
  by pat_completeness auto
termination
  by (relation "measure length") (auto simp: collect_block_length less_Suc_eq_le)

declare collapse_loop.simps [simp del]

definition collapse_code_blocks :: "string \<Rightarrow> string" where
  "collapse_code_blocks text = join_nl (collapse_loop (split_nl text))"

function block_summaries :: "string list \<Rightarrow> string list" where
  \<comment> \<open>the summary lines that \<open>collapse_loop\<close> emits for a list of lines: one for every
      block of more than 10 lines, found by the same scan\<close>
  "block_summaries [] = []"
| "block_summaries (line # ls) =
     (if is_fence line then
        (let code_lines = line # fst (collect_block ls);
             rest = snd (collect_block ls)
         in (if length code_lines > 10 then [block_summary code_lines] else [])
            @ block_summaries rest)
      else block_summaries ls)"
  by pat_completeness auto
termination
  by (relation "measure length") (auto simp: collect_block_length less_Suc_eq_le)

declare block_summaries.simps [simp del]

section \<open>Decoded JSON and Python values\<close>

text \<open>
  Both converters work on what \<open>json.loads\<close> / \<open>json.load\<close> returns. A dict is an
  association list read with \<^const>\<open>map_of\<close>; numbers are integers (the timestamps of format B
  are millisecond epochs), fractional numbers are not modelled. An exception that the source
  does not catch is a value \<open>Inl e\<close>.
\<close>

datatype json =
    JNull
  | JBool bool
  | JInt int
  | JStr string
  | JArr "json list"
  | JObj "(string \<times> json) list"

datatype py_error = AttributeError | TypeError

type_synonym dict = "(string \<times> json) list"

fun truthy :: "json \<Rightarrow> bool" where
  \<comment> \<open>\<open>bool(v)\<close>\<close>
  "truthy JNull = False"
| "truthy (JBool b) = b"
| "truthy (JInt n) = (n \<noteq> 0)"
| "truthy (JStr s) = (s \<noteq> [])"
| "truthy (JArr xs) = (xs \<noteq> [])"
| "truthy (JObj kvs) = (kvs \<noteq> [])"

definition dict_get :: "dict \<Rightarrow> string \<Rightarrow> json" where
  \<comment> \<open>\<open>d.get(k)\<close>\<close>
  "dict_get d k = (case map_of d k of None \<Rightarrow> JNull | Some v \<Rightarrow> v)"

definition dict_get_or :: "dict \<Rightarrow> string \<Rightarrow> json \<Rightarrow> json" where
  \<comment> \<open>\<open>d.get(k, default)\<close>\<close>
  "dict_get_or d k dflt = (case map_of d k of None \<Rightarrow> dflt | Some v \<Rightarrow> v)"

fun set_key :: "json \<Rightarrow> py_error + json" where
  \<comment> \<open>the element a value stands for in a Python \<open>set\<close>: lists and dicts are unhashable,
      \<open>True\<close> and \<open>False\<close> are the integers 1 and 0\<close>
  "set_key (JArr xs) = Inl TypeError"
| "set_key (JObj kvs) = Inl TypeError"
| "set_key (JBool b) = Inr (JInt (if b then 1 else 0))"
| "set_key v = Inr v"

definition lower_char :: "char \<Rightarrow> char" where
  "lower_char c =
     (let n = (of_char c :: nat)
      in if (65 \<le> n \<and> n \<le> 90) \<or> (192 \<le> n \<and> n \<le> 222 \<and> n \<noteq> 215) then char_of (n + 32) else c)"

definition lower :: "string \<Rightarrow> string" where
  \<comment> \<open>\<open>s.lower()\<close> on code points below 256\<close>
  "lower s = map lower_char s"

definition replace_char :: "char \<Rightarrow> string \<Rightarrow> string \<Rightarrow> string" where
  \<comment> \<open>\<open>s.replace(c, r)\<close> for a one-character \<open>c\<close>\<close>
  "replace_char c r s = concat (map (\<lambda>x. if x = c then r else [x]) s)"

definition is_slug_char :: "char \<Rightarrow> bool" where
  \<comment> \<open>the class \<open>[a-z0-9]\<close>\<close>
  "is_slug_char c = (let n = (of_char c :: nat) in (97 \<le> n \<and> n \<le> 122) \<or> (48 \<le> n \<and> n \<le> 57))"

fun sub_runs :: "bool \<Rightarrow> string \<Rightarrow> string" where
  \<comment> \<open>\<open>re.sub(r"[^a-z0-9]+", "-", s)\<close>; the flag says that the scan is inside a run of
      characters outside the class, whose hyphen has been written\<close>
  "sub_runs in_run [] = []"
| "sub_runs in_run (c # cs) =
     (if is_slug_char c then c # sub_runs False cs
      else if in_run then sub_runs True cs
      else CHR ''-'' # sub_runs True cs)"

definition strip_char :: "char \<Rightarrow> string \<Rightarrow> string" where
  \<comment> \<open>\<open>s.strip(c)\<close>\<close>
  "strip_char c s = rev (dropWhile (\<lambda>x. x = c) (rev (dropWhile (\<lambda>x. x = c) s)))"

definition slugify :: "string \<Rightarrow> string" where
  \<comment> \<open>\<open>re.sub(r"[^a-z0-9]+", "-", s.lower())[:40].strip("-")\<close>\<close>
  "slugify s = strip_char CHR ''-'' (take 40 (sub_runs False (lower s)))"

text \<open>
  What the converters take from the Python library and the file system: the \<open>datetime\<close>
  calls (\<open>None\<close> where they raise), \<open>str()\<close> of a value that is not a string, and whether
  an output file can be written.
\<close>

record platform =
  iso_hm :: "string \<Rightarrow> string option"
    \<comment> \<open>\<open>datetime.fromisoformat(s).strftime("%H:%M")\<close>\<close>
  iso_date :: "string \<Rightarrow> string option"
    \<comment> \<open>\<open>datetime.fromisoformat(s).strftime("%Y-%m-%d")\<close>\<close>
  ms_hm :: "json \<Rightarrow> string option"
    \<comment> \<open>\<open>datetime.fromtimestamp(ms / 1000.0, tz=timezone.utc).strftime("%H:%M")\<close>\<close>
  ms_date :: "json \<Rightarrow> string option"
    \<comment> \<open>the same with \<open>"%Y-%m-%d"\<close>\<close>
  ms_time :: "json \<Rightarrow> string option"
    \<comment> \<open>the same with \<open>"%H-%M"\<close>\<close>
  str_of :: "json \<Rightarrow> string"
    \<comment> \<open>\<open>str(v)\<close> for a value that is not a string\<close>
  write_ok :: "string \<Rightarrow> bool"
    \<comment> \<open>\<open>open(output_path, "w")\<close> and the write succeed for this file name\<close>

definition py_str :: "platform \<Rightarrow> json \<Rightarrow> string" where
  \<comment> \<open>how an f-string renders a value\<close>
  "py_str pf v = (case v of JStr s \<Rightarrow> s | _ \<Rightarrow> str_of pf v)"

datatype report =
    Error string      \<comment> \<open>a line printed with the prefix \<open>ERROR\<close>\<close>
  | Warning string    \<comment> \<open>a line printed with the prefix \<open>WARNING:\<close>\<close>
  | Converted string nat  \<comment> \<open>the line \<open>"\<checkmark> {output_filename} ({len(messages)} messages)"\<close>\<close>

record converter =
  processed_sessions :: "json set"
  files :: "string \<rightharpoonup> string"   \<comment> \<open>the output directory: file name to content\<close>
  console :: "report list"     \<comment> \<open>what has been printed, oldest first\<close>

definition say :: "report \<Rightarrow> 'a converter_scheme \<Rightarrow> 'a converter_scheme" where
  \<comment> \<open>\<open>print(...)\<close>\<close>
  "say r c = c\<lparr>console := console c @ [r]\<rparr>"

section \<open>Format A: \<open>convert_export.py\<close>\<close>

definition is_command_message :: "string \<Rightarrow> bool" where
  \<comment> \<open>\<open>bool(re.search(r"<(local-)?command-", content))\<close>\<close>
  "is_command_message content =
     (contains content ''<command-'' \<or> contains content ''<local-command-'')"

definition is_block_of :: "string \<Rightarrow> json \<Rightarrow> bool" where
  \<comment> \<open>\<open>isinstance(block, dict) and block.get("type") == kind\<close>\<close>
  "is_block_of kind block =
     (case block of JObj b \<Rightarrow> dict_get b ''type'' = JStr kind | _ \<Rightarrow> False)"

definition text_of_block :: "json \<Rightarrow> json list" where
  \<comment> \<open>the body of the loop of \<open>_extract_text_blocks\<close>: what one block appends to \<open>texts\<close>\<close>
  "text_of_block block =
     (case block of
        JObj b \<Rightarrow>
          (case map_of b ''text'' of
             Some t \<Rightarrow> if dict_get b ''type'' = JStr ''text'' then [t] else []
           | None \<Rightarrow> [])
      | _ \<Rightarrow> [])"

definition extract_text_blocks :: "json \<Rightarrow> json list" where
  "extract_text_blocks content =
     (case content of
        JStr s \<Rightarrow> if \<not> is_command_message s then [JStr s] else []
      | JArr blocks \<Rightarrow> concat (map text_of_block blocks)
      | _ \<Rightarrow> [])"

definition is_str :: "json \<Rightarrow> bool" where
  "is_str v = (case v of JStr s \<Rightarrow> True | _ \<Rightarrow> False)"

definition str_val :: "json \<Rightarrow> string" where
  "str_val v = (case v of JStr s \<Rightarrow> s | _ \<Rightarrow> [])"

definition join_texts :: "json list \<Rightarrow> py_error + string" where
  \<comment> \<open>\<open>"\n".join(texts).strip()\<close>: \<open>join\<close> raises TypeError on an item that is not a str\<close>
  "join_texts texts =
     (if list_all is_str texts then Inr (strip (join_nl (map str_val texts)))
      else Inl TypeError)"

definition should_skip_message :: "dict \<Rightarrow> bool" where
  "should_skip_message msg_obj =
     (if dict_get msg_obj ''type'' \<in> set (map JStr
           [''queue-operation'', ''file-history-snapshot'', ''system'', ''summary''])
      then True
      else if map_of msg_obj ''message'' = None then True
      else if truthy (dict_get msg_obj ''isMeta'') then True
      else False)"

definition extract_user_message :: "dict \<Rightarrow> py_error + string option" where
  "extract_user_message msg_obj =
     (if should_skip_message msg_obj then Inr None
      else case dict_get_or msg_obj ''message'' (JObj []) of
        JObj message \<Rightarrow>
          if dict_get message ''role'' \<noteq> JStr ''user'' then Inr None
          else (case dict_get message ''content'' of
                  JStr content \<Rightarrow>
                    if is_command_message content then Inr None
                    else Inr (Some (strip content))
                | JArr content \<Rightarrow>
                    let has_tool_result = list_ex (is_block_of ''tool_result'') content;
                        has_text = list_ex (is_block_of ''text'') content
                    in if has_tool_result \<and> \<not> has_text then Inr None
                       else (let texts = extract_text_blocks (JArr content)
                             in if texts \<noteq> []
                                then (case join_texts texts of
                                        Inl e \<Rightarrow> Inl e | Inr t \<Rightarrow> Inr (Some t))
                                else Inr None)
                | _ \<Rightarrow> Inr None)
      | _ \<Rightarrow> Inl AttributeError)"

definition extract_assistant_message :: "dict \<Rightarrow> py_error + string option" where
  "extract_assistant_message msg_obj =
     (if should_skip_message msg_obj then Inr None
      else case dict_get_or msg_obj ''message'' (JObj []) of
        JObj message \<Rightarrow>
          if dict_get message ''role'' \<noteq> JStr ''assistant'' then Inr None
          else (case dict_get message ''content'' of
                  JArr content \<Rightarrow>
                    (let texts = extract_text_blocks (JArr content)
                     in if texts \<noteq> []
                        then (case join_texts texts of
                                Inl e \<Rightarrow> Inl e | Inr t \<Rightarrow> Inr (Some t))
                        else Inr None)
                | _ \<Rightarrow> Inr None)
      | _ \<Rightarrow> Inl AttributeError)"

definition format_timestamp :: "platform \<Rightarrow> json \<Rightarrow> string" where
  \<comment> \<open>\<open>_format_timestamp\<close>; the bare \<open>except\<close> also catches a timestamp that is not a str\<close>
  "format_timestamp pf iso_timestamp =
     (case iso_timestamp of
        JStr s \<Rightarrow> (case iso_hm pf (replace_char CHR ''Z'' ''+00:00'' s) of
                     Some t \<Rightarrow> t | None \<Rightarrow> ''??:??'')
      | _ \<Rightarrow> ''??:??'')"

definition get_date_from_timestamp :: "platform \<Rightarrow> json \<Rightarrow> string" where
  "get_date_from_timestamp pf iso_timestamp =
     (case iso_timestamp of
        JStr s \<Rightarrow> (case iso_date pf (replace_char CHR ''Z'' ''+00:00'' s) of
                     Some t \<Rightarrow> t | None \<Rightarrow> ''unknown-date'')
      | _ \<Rightarrow> ''unknown-date'')"

definition get_summary :: "dict option \<Rightarrow> string option \<Rightarrow> json" where
  \<comment> \<open>\<open>_get_summary\<close>; \<open>metadata\<close> is what \<open>_load_session_metadata\<close> found in the sidecar\<close>
  "get_summary metadata first_user_message =
     (if (case metadata of Some md \<Rightarrow> md \<noteq> [] \<and> truthy (dict_get md ''summary'')
                         | None \<Rightarrow> False)
      then (case metadata of Some md \<Rightarrow> dict_get md ''summary'' | None \<Rightarrow> JNull)
      else case first_user_message of
        Some m \<Rightarrow>
          if m \<noteq> [] then
            JStr (replace_char newline '' '' (take 60 m) @ (if length m > 60 then ''...'' else []))
          else JStr ''Untitled Session''
      | None \<Rightarrow> JStr ''Untitled Session'')"

record message =
  m_role :: string
  m_text :: string
  m_timestamp :: json

record scan =
  \<comment> \<open>the local variables of \<open>convert_jsonl\<close> that the parse loop sets\<close>
  messages :: "message list"
  first_timestamp :: json
  first_user_message :: "string option"
  session_id :: json
  project_path :: json

definition init_scan :: scan where
  "init_scan = \<lparr>messages = [], first_timestamp = JNull, first_user_message = None,
                 session_id = JNull, project_path = JNull\<rparr>"

definition read_record :: "scan \<Rightarrow> json \<Rightarrow> py_error + scan" where
  \<comment> \<open>the body of \<open>for line in f\<close> for one decoded line\<close>
  "read_record sc rec =
     (case rec of
        JObj msg_obj \<Rightarrow>
          (let sc1 = (if first_timestamp sc = JNull
                      then sc\<lparr>first_timestamp := dict_get msg_obj ''timestamp'',
                              session_id := dict_get msg_obj ''sessionId'',
                              project_path := dict_get msg_obj ''cwd''\<rparr>
                      else sc)
           in case extract_user_message msg_obj of
                Inl e \<Rightarrow> Inl e
              | Inr user_text \<Rightarrow>
                  (case (case user_text of Some t \<Rightarrow> if t \<noteq> [] then Some t else None
                                         | None \<Rightarrow> None) of
                     Some t \<Rightarrow>
                       Inr (sc1\<lparr>first_user_message :=
                                   (case first_user_message sc1 of None \<Rightarrow> Some t
                                                                  | Some u \<Rightarrow> Some u),
                                 messages := messages sc1 @
                                   [\<lparr>m_role = ''user'', m_text = t,
                                     m_timestamp = dict_get msg_obj ''timestamp''\<rparr>]\<rparr>)
                   | None \<Rightarrow>
                       (case extract_assistant_message msg_obj of
                          Inl e \<Rightarrow> Inl e
                        | Inr assistant_text \<Rightarrow>
                            (case assistant_text of
                               Some t \<Rightarrow>
                                 if t \<noteq> [] then
                                   Inr (sc1\<lparr>messages := messages sc1 @
                                     [\<lparr>m_role = ''assistant'', m_text = t,
                                       m_timestamp = dict_get msg_obj ''timestamp''\<rparr>]\<rparr>)
                                 else Inr sc1
                             | None \<Rightarrow> Inr sc1))))
      | _ \<Rightarrow> Inl AttributeError)"

fun read_records :: "scan \<Rightarrow> json list \<Rightarrow> py_error + scan" where
  \<comment> \<open>the parse loop over the lines that are not blank and decode as JSON\<close>
  "read_records sc [] = Inr sc"
| "read_records sc (rec # recs) =
     (case read_record sc rec of Inl e \<Rightarrow> Inl e | Inr sc' \<Rightarrow> read_records sc' recs)"

definition render_message :: "platform \<Rightarrow> message \<Rightarrow> string list" where
  \<comment> \<open>the body of \<open>for msg in messages\<close>: the three lines appended to \<open>output_lines\<close>\<close>
  "render_message pf msg =
     (let timestamp = (if truthy (m_timestamp msg) then format_timestamp pf (m_timestamp msg)
                       else ''??:??'');
          speaker = (if m_role msg = ''user'' then ''User'' else ''Assistant'');
          text = collapse_code_blocks (m_text msg)
      in [''['' @ timestamp @ ''] '' @ speaker @ '':'', text, []])"

definition date_str_of :: "platform \<Rightarrow> scan \<Rightarrow> string" where
  "date_str_of pf sc =
     (if truthy (first_timestamp sc) then get_date_from_timestamp pf (first_timestamp sc)
      else ''unknown-date'')"

definition time_str_of :: "platform \<Rightarrow> scan \<Rightarrow> string" where
  "time_str_of pf sc =
     replace_char CHR '':'' ''-''
       (if truthy (first_timestamp sc) then format_timestamp pf (first_timestamp sc)
        else ''00-00'')"

definition output_filename_of :: "string \<Rightarrow> string \<Rightarrow> string \<Rightarrow> string" where
  \<comment> \<open>\<open>f"session_{date_str}_{time_str}_{summary_slug}.txt"\<close>\<close>
  "output_filename_of date_str time_str summary_slug =
     ''session_'' @ date_str @ ''_'' @ time_str @ ''_'' @ summary_slug @ ''.txt''"

definition header_lines :: "platform \<Rightarrow> scan \<Rightarrow> string \<Rightarrow> string list" where
  \<comment> \<open>\<open>output_lines\<close> of \<open>convert_jsonl\<close> before the loop over the messages\<close>
  "header_lines pf sc summary =
     [''=== Session: '' @ summary @ '' ==='',
      ''Date: '' @ date_str_of pf sc @ '' '' @ replace_char CHR ''-'' '':'' (time_str_of pf sc)]
     @ (if truthy (project_path sc) then [''Project: '' @ py_str pf (project_path sc)] else [])
     @ (if truthy (session_id sc) then [''Session ID: '' @ py_str pf (session_id sc)] else [])
     @ [''Messages: '' @ show_nat (length (messages sc)), ''==='' @ [newline]]"

definition write_session ::
  "platform \<Rightarrow> string \<Rightarrow> string list \<Rightarrow> nat \<Rightarrow> 'a converter_scheme \<Rightarrow> bool \<times> 'a converter_scheme"
where
  \<comment> \<open>the final \<open>try\<close> of both converters: write the file and print, or report the failure\<close>
  "write_session pf output_filename output_lines n c =
     (if write_ok pf output_filename
      then (True, say (Converted output_filename n)
                    (c\<lparr>files := (files c)(output_filename \<mapsto> join_nl output_lines)\<rparr>))
      else (False, say (Error ''writing'') c))"

definition convert_jsonl ::
  "platform \<Rightarrow> converter \<Rightarrow> json list option \<Rightarrow> dict option \<Rightarrow> py_error + bool \<times> converter"
where
  \<comment> \<open>\<open>file\<close>: the decoded lines of \<open>jsonl_path\<close>, \<open>None\<close> if the path does not exist\<close>
  "convert_jsonl pf c file metadata =
     (case file of
        None \<Rightarrow> Inr (False, say (Error ''File not found'') c)
      | Some records \<Rightarrow>
          (case read_records init_scan records of
             Inl e \<Rightarrow> Inr (False, say (Error ''reading'') c)
           | Inr sc \<Rightarrow>
               if messages sc = [] then Inr (False, say (Warning ''No messages extracted'') c)
               else case (if truthy (session_id sc) then set_key (session_id sc)
                          else Inr JNull) of
                 Inl e \<Rightarrow> Inl e
               | Inr k \<Rightarrow>
                   if truthy (session_id sc) \<and> k \<in> processed_sessions c
                   then Inr (False, say (Warning ''Session already processed, skipping'') c)
                   else
                     (let c1 = (if truthy (session_id sc)
                                then c\<lparr>processed_sessions := insert k (processed_sessions c)\<rparr>
                                else c)
                      in case get_summary metadata (first_user_message sc) of
                           JStr summary \<Rightarrow>
                             Inr (write_session pf
                                    (output_filename_of (date_str_of pf sc) (time_str_of pf sc)
                                       (slugify summary))
                                    (header_lines pf sc summary
                                       @ concat (map (render_message pf) (messages sc)))
                                    (length (messages sc)) c1)
                         | _ \<Rightarrow> Inl AttributeError)))"

fun convert_directory ::
  "platform \<Rightarrow> converter \<Rightarrow> (json list option \<times> dict option) list \<Rightarrow> py_error + nat \<times> converter"
where
  \<comment> \<open>the loop of \<open>convert_directory\<close> over the sorted \<open>*.jsonl\<close> files, counting successes\<close>
  "convert_directory pf c [] = Inr (0, c)"
| "convert_directory pf c ((file, metadata) # rest) =
     (case convert_jsonl pf c file metadata of
        Inl e \<Rightarrow> Inl e
      | Inr (ok, c') \<Rightarrow>
          (case convert_directory pf c' rest of
             Inl e \<Rightarrow> Inl e
           | Inr (count, c'') \<Rightarrow> Inr ((if ok then 1 else 0) + count, c'')))"

section \<open>Format B: \<open>convert_opencode.py\<close>\<close>

record opencode_converter = converter +
  agent_case_map :: "string \<rightharpoonup> string"

record storage =
  \<comment> \<open>the storage directory as the converter reads it: for a session id the files of
      \<open>message/<id>\<close> and for a message id the files of \<open>part/<id>\<close>, in sorted order,
      each as \<open>_load_message\<close> / \<open>_load_part\<close> returns it; \<open>None\<close> if the directory
      does not exist\<close>
  message_dir :: "string \<Rightarrow> dict option list option"
  part_dir :: "string \<Rightarrow> dict option list option"

record part_message =
  p_role :: json
  p_text :: string
  p_timestamp_ms :: json
  p_agent :: json

definition normalize_agent_name ::
  "json \<Rightarrow> (string \<rightharpoonup> string) \<Rightarrow> py_error + string \<times> (string \<rightharpoonup> string)"
where
  \<comment> \<open>\<open>_normalize_agent_name\<close>, with \<open>self.agent_case_map\<close> passed and returned\<close>
  "normalize_agent_name agent_str amap =
     (if \<not> truthy agent_str then Inr ([], amap)
      else case agent_str of
        JStr s \<Rightarrow>
          (let parts = split_on CHR ''-'' s;
               base_agent = (if parts \<noteq> [] then last parts else s);
               lower_base = lower base_agent;
               amap' = (if amap lower_base = None then amap(lower_base \<mapsto> base_agent)
                        else amap)
           in Inr (case amap' lower_base of Some n \<Rightarrow> n | None \<Rightarrow> base_agent, amap'))
      | _ \<Rightarrow> Inl AttributeError)"

definition should_skip_part :: "dict \<Rightarrow> bool" where
  "should_skip_part part =
     (let part_type = dict_get part ''type''
      in if part_type \<noteq> JStr ''text'' then True
         else if truthy (dict_get part ''synthetic'') then True
         else if part_type \<in> set (map JStr [''reasoning'', ''tool'', ''step-start'',
                   ''step-finish'', ''file'', ''compaction'', ''subtask''])
         then True
         else False)"

definition extract_part_text :: "dict \<Rightarrow> py_error + string option" where
  "extract_part_text part =
     (if should_skip_part part then Inr None
      else case dict_get_or part ''text'' (JStr []) of
        JStr t \<Rightarrow> (let text = strip t in if text = [] then Inr None else Inr (Some text))
      | _ \<Rightarrow> Inl AttributeError)"

definition get_part_timestamp :: "dict \<Rightarrow> json \<Rightarrow> json" where
  "get_part_timestamp part message_time_ms =
     (case dict_get_or part ''time'' (JObj []) of
        JObj part_time \<Rightarrow>
          (let start_ms = dict_get part_time ''start''
           in if truthy start_ms then start_ms else message_time_ms)
      | _ \<Rightarrow> message_time_ms)"

fun read_parts ::
  "json \<Rightarrow> json \<Rightarrow> json \<Rightarrow> part_message list \<Rightarrow> dict option list \<Rightarrow> py_error + part_message list"
where
  \<comment> \<open>\<open>for part_file in part_files\<close>, appending to \<open>messages\<close>\<close>
  "read_parts role agent message_time_ms msgs [] = Inr msgs"
| "read_parts role agent message_time_ms msgs (part # part_files) =
     (case part of
        None \<Rightarrow> read_parts role agent message_time_ms msgs part_files
      | Some part \<Rightarrow>
          if part = [] then read_parts role agent message_time_ms msgs part_files
          else (case extract_part_text part of
                  Inl e \<Rightarrow> Inl e
                | Inr None \<Rightarrow> read_parts role agent message_time_ms msgs part_files
                | Inr (Some text) \<Rightarrow>
                    read_parts role agent message_time_ms
                      (msgs @ [\<lparr>p_role = role, p_text = text,
                                     p_timestamp_ms = get_part_timestamp part message_time_ms,
                                     p_agent = agent\<rparr>])
                      part_files))"

definition message_time_ms_of :: "dict \<Rightarrow> json" where
  \<comment> \<open>\<open>message_time_ms\<close>: \<open>time.created\<close> when \<open>time\<close> is a dict, else \<open>None\<close>\<close>
  "message_time_ms_of message =
     (case dict_get_or message ''time'' (JObj []) of
        JObj message_time_data \<Rightarrow> dict_get message_time_data ''created''
      | _ \<Rightarrow> JNull)"

definition read_message ::
  "storage \<Rightarrow> part_message list \<times> json \<Rightarrow> dict option \<Rightarrow> py_error + part_message list \<times> json"
where
  \<comment> \<open>the body of \<open>for message_file in message_files\<close> on \<open>(messages, first_timestamp_ms)\<close>\<close>
  "read_message st acc message_file =
     (case acc of (msgs, first_timestamp_ms) \<Rightarrow>
      case message_file of
        None \<Rightarrow> Inr acc
      | Some message \<Rightarrow>
          if message = [] then Inr acc
          else
            (let message_id = dict_get message ''id'';
                 message_time_ms = message_time_ms_of message
             in if \<not> truthy message_time_ms then Inr acc
                else
                  (let first' = (if first_timestamp_ms = JNull then message_time_ms
                                 else first_timestamp_ms);
                       role = dict_get message ''role'';
                       agent = dict_get_or message ''agent'' (JStr [])
                   in if \<not> truthy message_id then Inr (msgs, first')
                      else case message_id of
                        JStr mid \<Rightarrow>
                          (case part_dir st mid of
                             None \<Rightarrow> Inr (msgs, first')
                           | Some part_files \<Rightarrow>
                               (case read_parts role agent message_time_ms msgs part_files of
                                  Inl e \<Rightarrow> Inl e
                                | Inr msgs' \<Rightarrow> Inr (msgs', first')))
                      | _ \<Rightarrow> Inl TypeError)))"

fun read_messages ::
  "storage \<Rightarrow> part_message list \<times> json \<Rightarrow> dict option list \<Rightarrow> py_error + part_message list \<times> json"
where
  "read_messages st acc [] = Inr acc"
| "read_messages st acc (message_file # message_files) =
     (case read_message st acc message_file of
        Inl e \<Rightarrow> Inl e
      | Inr acc' \<Rightarrow> read_messages st acc' message_files)"

definition is_num :: "json \<Rightarrow> bool" where
  "is_num v = (case v of JInt n \<Rightarrow> True | JBool b \<Rightarrow> True | _ \<Rightarrow> False)"

definition num_val :: "json \<Rightarrow> int" where
  "num_val v = (case v of JInt n \<Rightarrow> n | JBool b \<Rightarrow> (if b then 1 else 0) | _ \<Rightarrow> 0)"

definition sort_messages :: "part_message list \<Rightarrow> py_error + part_message list" where
  \<comment> \<open>\<open>messages.sort(key=lambda m: m["timestamp_ms"])\<close>, a stable sort. Numbers compare with
      numbers and strings with strings, by code point; any other comparison is taken to raise
      TypeError (Python also compares lists with lists, which is not modelled)\<close>
  "sort_messages msgs =
     (if length msgs \<le> 1 then Inr msgs
      else if list_all (\<lambda>m. is_num (p_timestamp_ms m)) msgs
        then Inr (sort_key (\<lambda>m. num_val (p_timestamp_ms m)) msgs)
      else if list_all (\<lambda>m. is_str (p_timestamp_ms m)) msgs
        then Inr (sort_key (\<lambda>m. str_val (p_timestamp_ms m)) msgs)
      else Inl TypeError)"

definition format_timestamp_ms :: "platform \<Rightarrow> json \<Rightarrow> string" where
  "format_timestamp_ms pf ms_epoch = (case ms_hm pf ms_epoch of Some t \<Rightarrow> t | None \<Rightarrow> ''??:??'')"

definition get_date_from_ms :: "platform \<Rightarrow> json \<Rightarrow> string" where
  "get_date_from_ms pf ms_epoch =
     (case ms_date pf ms_epoch of Some t \<Rightarrow> t | None \<Rightarrow> ''unknown-date'')"

definition get_time_from_ms :: "platform \<Rightarrow> json \<Rightarrow> string" where
  "get_time_from_ms pf ms_epoch = (case ms_time pf ms_epoch of Some t \<Rightarrow> t | None \<Rightarrow> ''00-00'')"

definition speaker_of ::
  "part_message \<Rightarrow> (string \<rightharpoonup> string) \<Rightarrow> py_error + string \<times> (string \<rightharpoonup> string)"
where
  \<comment> \<open>the value of \<open>speaker\<close> in the loop over the messages\<close>
  "speaker_of msg amap =
     (if p_role msg = JStr ''user'' then Inr (''User'', amap)
      else case normalize_agent_name (p_agent msg) amap of
        Inl e \<Rightarrow> Inl e
      | Inr (agent_name, amap') \<Rightarrow>
          Inr (if agent_name \<noteq> [] then ''Assistant ('' @ agent_name @ '')'' else ''Assistant'',
               amap'))"

fun render_messages ::
  "platform \<Rightarrow> (string \<rightharpoonup> string) \<Rightarrow> part_message list \<Rightarrow>
   py_error + string list \<times> (string \<rightharpoonup> string)"
where
  \<comment> \<open>\<open>for msg in messages\<close>: the lines appended to \<open>output_lines\<close>, and the agent map\<close>
  "render_messages pf amap [] = Inr ([], amap)"
| "render_messages pf amap (msg # msgs) =
     (case speaker_of msg amap of
        Inl e \<Rightarrow> Inl e
      | Inr (speaker, amap1) \<Rightarrow>
          (case render_messages pf amap1 msgs of
             Inl e \<Rightarrow> Inl e
           | Inr (lines, amap2) \<Rightarrow>
               Inr ([''['' @ format_timestamp_ms pf (p_timestamp_ms msg) @ ''] '' @ speaker @ '':'',
                     collapse_code_blocks (p_text msg), []] @ lines, amap2)))"

definition session_header ::
  "platform \<Rightarrow> string \<Rightarrow> json \<Rightarrow> json \<Rightarrow> nat \<Rightarrow> string list"
where
  \<comment> \<open>\<open>output_lines\<close> of \<open>convert_session\<close> before the loop over the messages\<close>
  "session_header pf title sess_id first_timestamp_ms n =
     [''=== Session: '' @ title @ '' ('' @ slugify title @ '') ==='',
      ''Date: '' @ get_date_from_ms pf first_timestamp_ms @ '' '' @
         replace_char CHR ''-'' '':'' (get_time_from_ms pf first_timestamp_ms),
      ''Session ID: '' @ py_str pf sess_id,
      ''Messages: '' @ show_nat n,
      ''==='' @ [newline]]"

definition convert_session ::
  "platform \<Rightarrow> storage \<Rightarrow> opencode_converter \<Rightarrow> dict option \<Rightarrow>
   py_error + bool \<times> opencode_converter"
where
  \<comment> \<open>\<open>session_file\<close>: what \<open>_load_session(session_path)\<close> returns; \<open>msgs\<close> and
      \<open>sess_id\<close> are the source's \<open>messages\<close> and \<open>session_id\<close>\<close>
  "convert_session pf st c session_file =
     (case session_file of
        None \<Rightarrow> Inr (False, c)
      | Some session \<Rightarrow>
          if session = [] then Inr (False, c)
          else
            (let sess_id = dict_get session ''id''
             in if truthy (dict_get session ''parentID'') then Inr (False, c)
                else case set_key sess_id of
                  Inl e \<Rightarrow> Inl e
                | Inr k \<Rightarrow>
                    if k \<in> processed_sessions c then Inr (False, c)
                    else
                      (let c1 = c\<lparr>processed_sessions := insert k (processed_sessions c)\<rparr>
                       in if \<not> truthy sess_id then Inr (False, c1)
                          else case sess_id of
                            JStr sid \<Rightarrow>
                              (case message_dir st sid of
                                 None \<Rightarrow> Inr (False, c1)
                               | Some message_files \<Rightarrow>
                                   if message_files = [] then Inr (False, c1)
                                   else
                                     (case read_messages st ([], JNull) message_files of
                                        Inl e \<Rightarrow> Inl e
                                      | Inr (msgs, first_timestamp_ms) \<Rightarrow>
                                          if msgs = [] then Inr (False, c1)
                                          else
                                            (case sort_messages msgs of
                                               Inl e \<Rightarrow> Inl e
                                             | Inr sorted_messages \<Rightarrow>
    if \<not> truthy first_timestamp_ms then Inr (False, c1)
    else
      (case dict_get_or session ''title'' (JStr ''Untitled Session'') of
         JStr title \<Rightarrow>
           (case render_messages pf (agent_case_map c1) sorted_messages of
              Inl e \<Rightarrow> Inl e
            | Inr (lines, amap) \<Rightarrow>
                Inr (write_session pf
                       (output_filename_of (get_date_from_ms pf first_timestamp_ms)
                          (get_time_from_ms pf first_timestamp_ms) (slugify title))
                       (session_header pf title sess_id first_timestamp_ms
                          (length sorted_messages) @ lines)
                       (length sorted_messages)
                       (c1\<lparr>agent_case_map := amap\<rparr>)))
       | _ \<Rightarrow> Inl AttributeError))))
                          | _ \<Rightarrow> Inl TypeError)))"

fun convert_storage ::
  "platform \<Rightarrow> storage \<Rightarrow> opencode_converter \<Rightarrow> dict option list \<Rightarrow>
   py_error + nat \<times> opencode_converter"
where
  \<comment> \<open>the loop of \<open>OpenCodeConverter.convert_directory\<close> over the sorted session files\<close>
  "convert_storage pf st c [] = Inr (0, c)"
| "convert_storage pf st c (session_file # rest) =
     (case convert_session pf st c session_file of
        Inl e \<Rightarrow> Inl e
      | Inr (ok, c') \<Rightarrow>
          (case convert_storage pf st c' rest of
             Inl e \<Rightarrow> Inl e
           | Inr (count, c'') \<Rightarrow> Inr ((if ok then 1 else 0) + count, c'')))"

definition init_converter :: converter where
  \<comment> \<open>\<open>JSONLConverter.__init__\<close>, on an empty output directory\<close>
  "init_converter = \<lparr>processed_sessions = {}, files = Map.empty, console = []\<rparr>"

definition init_opencode_converter :: opencode_converter where
  \<comment> \<open>\<open>OpenCodeConverter.__init__\<close>, on an empty output directory\<close>
  "init_opencode_converter =
     \<lparr>processed_sessions = {}, files = Map.empty, console = [], agent_case_map = Map.empty\<rparr>"

section \<open>Vocabulary of the claims\<close>

text \<open>
  The claim about agent names speaks of the last hyphen-delimited segment of an identifier and
  of the casing seen first. These definitions say that in the claim's words; the theorems
  relate them to \<^const>\<open>normalize_agent_name\<close> and \<^const>\<open>render_messages\<close>.
\<close>

definition last_segment :: "string \<Rightarrow> string" where
  \<comment> \<open>what follows the last hyphen of the identifier, the whole identifier if it has none\<close>
  "last_segment s = rev (takeWhile (\<lambda>c. c \<noteq> CHR ''-'') (rev s))"

definition agent_base :: "part_message \<Rightarrow> string option" where
  \<comment> \<open>the agent name of an assistant turn that carries a non-empty agent identifier\<close>
  "agent_base m =
     (if p_role m = JStr ''user'' then None
      else case p_agent m of
        JStr a \<Rightarrow> if a \<noteq> [] then Some (last_segment a) else None
      | _ \<Rightarrow> None)"

definition first_seen_casing :: "(string \<rightharpoonup> string) \<Rightarrow> string list \<Rightarrow> string \<Rightarrow> string" where
  \<comment> \<open>the casing to display for the name \<open>base\<close>: the one remembered from earlier in the run,
      else the one of the first earlier name of this session equal to it up to case, else its
      own\<close>
  "first_seen_casing amap earlier base =
     (case amap (lower base) of
        Some n \<Rightarrow> n
      | None \<Rightarrow> (case find (\<lambda>b. lower b = lower base) earlier of Some b \<Rightarrow> b | None \<Rightarrow> base))"

definition assistant_label :: "string \<Rightarrow> string" where
  \<comment> \<open>the speaker of an assistant turn whose displayed agent name is \<open>n\<close>\<close>
  "assistant_label n = (if n \<noteq> [] then ''Assistant ('' @ n @ '')'' else ''Assistant'')"

text \<open>
  The claim speaks of one run: the turns rendered before a given turn are those of the sessions
  converted earlier by the same converter, followed by the earlier turns of its own session.
\<close>

definition session_turns :: "storage \<Rightarrow> opencode_converter \<Rightarrow> dict option \<Rightarrow> part_message list" where
  \<comment> \<open>the turns over which \<open>convert_session\<close> runs its loop \<open>for msg in messages\<close>: the
      sorted messages of the session, and none when the session returns before the loop\<close>
  "session_turns st c session_file =
     (case session_file of
        None \<Rightarrow> []
      | Some session \<Rightarrow>
          (case dict_get session ''id'' of
             JStr sid \<Rightarrow>
               if session = [] \<or> truthy (dict_get session ''parentID'') \<or> sid = [] \<or>
                  JStr sid \<in> processed_sessions c
               then []
               else
                 (case message_dir st sid of
                    None \<Rightarrow> []
                  | Some message_files \<Rightarrow>
                      (case read_messages st ([], JNull) message_files of
                         Inl e \<Rightarrow> []
                       | Inr (msgs, first_timestamp_ms) \<Rightarrow>
                           if \<not> truthy first_timestamp_ms then []
                           else (case sort_messages msgs of
                                   Inl e \<Rightarrow> []
                                 | Inr sorted_messages \<Rightarrow> sorted_messages)))
           | _ \<Rightarrow> []))"

fun run_turns ::
  "platform \<Rightarrow> storage \<Rightarrow> opencode_converter \<Rightarrow> dict option list \<Rightarrow> part_message list"
where
  \<comment> \<open>the turns rendered by the run of \<open>convert_directory\<close> over the session files, in the
      order of rendering\<close>
  "run_turns pf st c [] = []"
| "run_turns pf st c (session_file # rest) =
     session_turns st c session_file @
     (case convert_session pf st c session_file of
        Inl e \<Rightarrow> []
      | Inr (ok, c') \<Rightarrow> run_turns pf st c' rest)"

section \<open>Example inputs\<close>

text \<open>
  Inputs for the closed theorems below. The example platform does the arithmetic of
  \<open>datetime\<close> in UTC for millisecond timestamps from 1970 to 9999 and for ISO timestamps of
  the shape \<open>YYYY-MM-DDTHH:MM:SS+00:00\<close>, and raises on everything else; every file can be
  written.
\<close>

definition two_digits :: "nat \<Rightarrow> string" where
  "two_digits n = [digit_char (n div 10 mod 10), digit_char (n mod 10)]"

definition utc_clock :: "char \<Rightarrow> int \<Rightarrow> string" where
  \<comment> \<open>hour and minute in UTC of a millisecond epoch, with the separator given\<close>
  "utc_clock sep ms =
     two_digits (nat (ms div 3600000 mod 24)) @ [sep] @ two_digits (nat (ms div 60000 mod 60))"

definition utc_date :: "int \<Rightarrow> string" where
  \<comment> \<open>the date \<open>YYYY-MM-DD\<close> in UTC of a millisecond epoch (Gregorian calendar, from the
      count of days since 0000-03-01)\<close>
  "utc_date ms =
     (let z = ms div 86400000 + 719468;
          era = z div 146097;
          doe = z mod 146097;
          yoe = (doe - doe div 1460 + doe div 36524 - doe div 146096) div 365;
          doy = doe - (365 * yoe + yoe div 4 - yoe div 100);
          mp = (5 * doy + 2) div 153;
          d = doy - (153 * mp + 2) div 5 + 1;
          m = (if mp < 10 then mp + 3 else mp - 9);
          y = yoe + era * 400 + (if m \<le> 2 then 1 else 0)
      in show_nat (nat y) @ ''-'' @ two_digits (nat m) @ ''-'' @ two_digits (nat d))"

definition in_demo_range :: "json \<Rightarrow> bool" where
  "in_demo_range v = (case v of JInt n \<Rightarrow> 0 \<le> n \<and> n < 253402300800000 | _ \<Rightarrow> False)"

definition is_digit :: "char \<Rightarrow> bool" where
  "is_digit c = (let n = (of_char c :: nat) in 48 \<le> n \<and> n \<le> 57)"

definition iso_utc_shape :: "string \<Rightarrow> bool" where
  \<comment> \<open>the text is \<open>YYYY-MM-DDTHH:MM:SS+00:00\<close>\<close>
  "iso_utc_shape s =
     (length s = 25 \<and>
      list_all is_digit (map (\<lambda>i. s ! i) [0, 1, 2, 3, 5, 6, 8, 9, 11, 12, 14, 15, 17, 18]) \<and>
      map (\<lambda>i. s ! i) [4, 7, 10, 13, 16] = ''--T::'' \<and> drop 19 s = ''+00:00'')"

definition demo_platform :: platform where
  "demo_platform =
     \<lparr>iso_hm = (\<lambda>s. if iso_utc_shape s then Some (take 5 (drop 11 s)) else None),
      iso_date = (\<lambda>s. if iso_utc_shape s then Some (take 10 s) else None),
      ms_hm = (\<lambda>v. if in_demo_range v then Some (utc_clock CHR '':'' (num_val v)) else None),
      ms_date = (\<lambda>v. if in_demo_range v then Some (utc_date (num_val v)) else None),
      ms_time = (\<lambda>v. if in_demo_range v then Some (utc_clock CHR ''-'' (num_val v)) else None),
      str_of = (\<lambda>v. []), write_ok = (\<lambda>f. True)\<rparr>"

definition demo_records :: "json list" where
  \<comment> \<open>the two lines of the end-to-end example of format A\<close>
  "demo_records =
     [JObj [(''type'', JStr ''user''),
            (''message'', JObj [(''role'', JStr ''user''), (''content'', JStr ''hello'')]),
            (''timestamp'', JStr ''2024-01-01T10:05:00Z''), (''sessionId'', JStr ''s1'')],
      JObj [(''type'', JStr ''assistant''),
            (''message'', JObj [(''role'', JStr ''assistant''),
               (''content'', JArr [JObj [(''type'', JStr ''text''), (''text'', JStr ''hi there'')]])]),
            (''timestamp'', JStr ''2024-01-01T10:06:00Z''), (''sessionId'', JStr ''s1'')]]"

definition system_records :: "json list" where
  \<comment> \<open>a session file with a system record and a tool result only\<close>
  "system_records =
     [JObj [(''type'', JStr ''system''), (''timestamp'', JStr ''2024-01-01T10:05:00Z''),
            (''sessionId'', JStr ''s9'')],
      JObj [(''type'', JStr ''user''),
            (''message'', JObj [(''role'', JStr ''user''),
               (''content'', JArr [JObj [(''type'', JStr ''tool_result''),
                                         (''content'', JStr ''ok'')]])]),
            (''timestamp'', JStr ''2024-01-01T10:06:00Z''), (''sessionId'', JStr ''s9'')]]"

definition demo_session :: dict where
  "demo_session = [(''id'', JStr ''s2''), (''title'', JStr ''Demo'')]"

definition followup_session :: dict where
  \<comment> \<open>a later session of the same run, by the agent of \<open>demo_session\<close> in another casing\<close>
  "followup_session = [(''id'', JStr ''s4''), (''title'', JStr ''Again'')]"

definition tool_session :: dict where
  "tool_session = [(''id'', JStr ''s3''), (''title'', JStr ''Tools only'')]"

definition demo_message :: "nat \<Rightarrow> dict" where
  \<comment> \<open>the message files of the example storage\<close>
  "demo_message n =
     (if n = 1 then [(''id'', JStr ''m1''), (''role'', JStr ''user''),
                     (''time'', JObj [(''created'', JInt 1704103500000)])]
      else if n = 2 then [(''id'', JStr ''m2''), (''role'', JStr ''assistant''),
                     (''agent'', JStr ''Planner-Sisyphus''),
                     (''time'', JObj [(''created'', JInt 1704103560000)])]
      else if n = 3 then [(''id'', JStr ''m3''), (''role'', JStr ''assistant''),
                     (''agent'', JStr ''PLANNER-SISYPHUS''),
                     (''time'', JObj [(''created'', JInt 1704103620000)])]
      else if n = 4 then [(''id'', JStr ''m4''), (''role'', JStr ''user''),
                     (''time'', JObj [(''created'', JInt 0)])]
      else if n = 5 then [(''id'', JStr ''m5''), (''role'', JStr ''assistant''),
                     (''time'', JObj [(''created'', JInt 1704103500000)])]
      else [(''id'', JStr ''m6''), (''role'', JStr ''assistant''),
            (''agent'', JStr ''SISYPHUS''),
            (''time'', JObj [(''created'', JInt 1704103680000)])])"

definition demo_storage :: storage where
  "demo_storage =
     \<lparr>message_dir = (\<lambda>sid.
        if sid = ''s2'' then Some (map (\<lambda>n. Some (demo_message n)) [1, 2, 3, 4])
        else if sid = ''s3'' then Some [Some (demo_message 5)]
        else if sid = ''s4'' then Some [Some (demo_message 6)]
        else None),
      part_dir = (\<lambda>mid.
        if mid = ''m1'' then
          Some [Some [(''type'', JStr ''text''), (''text'', JStr ''hey''),
                      (''time'', JObj [(''start'', JInt 1704103500005)])]]
        else if mid = ''m2'' then
          Some [Some [(''type'', JStr ''text''), (''text'', JStr ''planning'')],
                Some [(''type'', JStr ''tool''), (''text'', JStr ''ls'')]]
        else if mid = ''m3'' then Some [Some [(''type'', JStr ''text''), (''text'', JStr ''done'')]]
        else if mid = ''m4'' then Some [Some [(''type'', JStr ''text''), (''text'', JStr ''lost'')]]
        else if mid = ''m5'' then Some [Some [(''type'', JStr ''tool''), (''text'', JStr ''ls'')]]
        else if mid = ''m6'' then Some [Some [(''type'', JStr ''text''), (''text'', JStr ''again'')]]
        else None)\<rparr>"

definition demo_turns :: "part_message list" where
  \<comment> \<open>the turns of session \<open>s2\<close> of the example storage, in timestamp order\<close>
  "demo_turns =
     [\<lparr>p_role = JStr ''user'', p_text = ''hey'', p_timestamp_ms = JInt 1704103500005,
       p_agent = JStr []\<rparr>,
      \<lparr>p_role = JStr ''assistant'', p_text = ''planning'', p_timestamp_ms = JInt 1704103560000,
       p_agent = JStr ''Planner-Sisyphus''\<rparr>,
      \<lparr>p_role = JStr ''assistant'', p_text = ''done'', p_timestamp_ms = JInt 1704103620000,
       p_agent = JStr ''PLANNER-SISYPHUS''\<rparr>]"

section \<open>Properties of the text normalizer\<close>

lemma split_on_nonempty: "split_on sep s \<noteq> []"
  by (induction s) (auto split: list.splits)

lemma split_nl_nonempty: "split_nl s \<noteq> []"
  by (simp add: split_nl_def split_on_nonempty)

lemma join_split_nl: "join_nl (split_nl s) = s"
  unfolding split_nl_def
proof (induction s)
  case Nil show ?case by simp
next
  case (Cons c cs)
  obtain l ls where sp: "split_on newline cs = l # ls"
    using split_on_nonempty [of newline cs] by (cases "split_on newline cs") auto
  with Cons show ?case by (cases ls) auto
qed

lemma split_nl_no_newline: "l \<in> set (split_nl s) \<Longrightarrow> newline \<notin> set l"
  unfolding split_nl_def
  by (induction s arbitrary: l) (auto split: if_splits list.splits)

lemma split_nl_line: "newline \<notin> set l \<Longrightarrow> split_nl l = [l]"
  unfolding split_nl_def by (induction l) auto

lemma split_nl_append: "newline \<notin> set l \<Longrightarrow> split_nl (l @ newline # s) = l # split_nl s"
  unfolding split_nl_def by (induction l) auto

lemma split_join_nl:
  "ls \<noteq> [] \<Longrightarrow> \<forall>l \<in> set ls. newline \<notin> set l \<Longrightarrow> split_nl (join_nl ls) = ls"
  by (induction ls rule: join_nl.induct) (auto simp: split_nl_line split_nl_append)

lemma collect_block_closed:
  "\<forall>l \<in> set inner. \<not> is_fence l \<Longrightarrow> is_fence c \<Longrightarrow>
   collect_block (inner @ c # post) = (inner @ [c], post)"
  by (induction inner) auto

lemma collect_block_open:
  "\<forall>l \<in> set inner. \<not> is_fence l \<Longrightarrow> collect_block inner = (inner, [])"
  by (induction inner) auto

lemma collect_block_cases:
  "(\<exists>inner c. (\<forall>l \<in> set inner. \<not> is_fence l) \<and> is_fence c \<and>
      ls = inner @ c # snd (collect_block ls) \<and> fst (collect_block ls) = inner @ [c]) \<or>
   ((\<forall>l \<in> set ls. \<not> is_fence l) \<and> collect_block ls = (ls, []))"
proof (induction ls)
  case Nil show ?case by simp
next
  case (Cons l ls)
  show ?case
  proof (cases "is_fence l")
    case True
    then have "(\<forall>x \<in> set ([]::string list). \<not> is_fence x) \<and> is_fence l \<and>
      l # ls = [] @ l # snd (collect_block (l # ls)) \<and> fst (collect_block (l # ls)) = [] @ [l]"
      by simp
    then show ?thesis by blast
  next
    case False
    from Cons show ?thesis
    proof
      assume "\<exists>inner c. (\<forall>l \<in> set inner. \<not> is_fence l) \<and> is_fence c \<and>
        ls = inner @ c # snd (collect_block ls) \<and> fst (collect_block ls) = inner @ [c]"
      then obtain inner c where h: "\<forall>l \<in> set inner. \<not> is_fence l" "is_fence c"
        "ls = inner @ c # snd (collect_block ls)" "fst (collect_block ls) = inner @ [c]"
        by blast
      with False have "(\<forall>x \<in> set (l # inner). \<not> is_fence x) \<and> is_fence c \<and>
        l # ls = (l # inner) @ c # snd (collect_block (l # ls)) \<and>
        fst (collect_block (l # ls)) = (l # inner) @ [c]"
        by (auto split: prod.splits)
      then show ?thesis by blast
    next
      assume "(\<forall>l \<in> set ls. \<not> is_fence l) \<and> collect_block ls = (ls, [])"
      with False show ?thesis by simp
    qed
  qed
qed

lemma collapse_loop_plain:
  "\<not> is_fence l \<Longrightarrow>
   collapse_loop (l # ls) = (if is_file_dump l then file_dump_placeholder else l) # collapse_loop ls"
  by (simp add: collapse_loop.simps)

lemma collapse_loop_closed_block:
  assumes "is_fence opn" "\<forall>l \<in> set inner. \<not> is_fence l" "is_fence c"
  shows "collapse_loop (opn # inner @ c # post) =
    (if length inner + 2 > 10 then [block_summary (opn # inner @ [c])] else opn # inner @ [c])
    @ collapse_loop post"
  using assms by (simp add: collapse_loop.simps(2) collect_block_closed)

lemma collapse_loop_open_block:
  assumes "is_fence opn" "\<forall>l \<in> set inner. \<not> is_fence l"
  shows "collapse_loop (opn # inner) =
    (if length inner + 1 > 10 then [block_summary (opn # inner)] else opn # inner)"
  using assms by (simp add: collapse_loop.simps collect_block_open)

lemma collapse_loop_append:
  "even (length (filter is_fence pre)) \<Longrightarrow>
   collapse_loop (pre @ xs) = collapse_loop pre @ collapse_loop xs"
proof (induction pre rule: collapse_loop.induct)
  case 1 show ?case by (simp add: collapse_loop.simps)
next
  case (2 line ls)
  show ?case
  proof (cases "is_fence line")
    case False
    with 2 show ?thesis by (simp add: collapse_loop_plain)
  next
    case True
    from collect_block_cases [of ls] show ?thesis
    proof
      assume "\<exists>inner c. (\<forall>l \<in> set inner. \<not> is_fence l) \<and> is_fence c \<and>
        ls = inner @ c # snd (collect_block ls) \<and> fst (collect_block ls) = inner @ [c]"
      then obtain inner c where h: "\<forall>l \<in> set inner. \<not> is_fence l" "is_fence c"
        "ls = inner @ c # snd (collect_block ls)" "fst (collect_block ls) = inner @ [c]"
        by blast
      define rest where "rest = snd (collect_block ls)"
      have ls: "ls = inner @ c # rest" using h(3) rest_def by simp
      have nf: "filter is_fence inner = []" using h(1) by (simp add: filter_empty_conv)
      have ev: "even (length (filter is_fence rest))"
        using "2.prems" True h(2) nf by (simp add: ls)
      have ih: "collapse_loop (rest @ xs) = collapse_loop rest @ collapse_loop xs"
        using "2.IH"(1) [OF True refl refl] ev rest_def by simp
      have "collapse_loop ((line # ls) @ xs) = collapse_loop (line # inner @ c # (rest @ xs))"
        by (simp add: ls)
      also have "\<dots> = (if length inner + 2 > 10 then [block_summary (line # inner @ [c])]
                         else line # inner @ [c]) @ collapse_loop (rest @ xs)"
        by (rule collapse_loop_closed_block [OF True h(1) h(2)])
      also have "\<dots> = collapse_loop (line # inner @ c # rest) @ collapse_loop xs"
        by (simp add: ih collapse_loop_closed_block [OF True h(1) h(2)])
      finally show ?thesis by (simp add: ls)
    next
      assume "(\<forall>l \<in> set ls. \<not> is_fence l) \<and> collect_block ls = (ls, [])"
      then have "filter is_fence ls = []" by (simp add: filter_empty_conv)
      with "2.prems" True show ?thesis by simp
    qed
  qed
qed

lemma strip_id:
  assumes "s \<noteq> []" "\<not> is_space (hd s)" "\<not> is_space (last s)"
  shows "strip s = s"
proof -
  have l: "lstrip s = s" using assms(1,2) by (cases s) (auto simp: lstrip_def)
  have "dropWhile is_space (rev s) = rev s"
    using assms(1,3) by (cases "rev s") (auto simp: last_rev [symmetric] simp del: last_rev)
  then show ?thesis by (simp add: strip_def rstrip_def l)
qed

lemma strip_block_summary: "strip (block_summary cl) = block_summary cl"
  by (rule strip_id) (simp_all add: block_summary_def is_space_def)

lemma block_summary_not_fence: "\<not> is_fence (block_summary cl)"
  unfolding is_fence_def strip_block_summary by (simp add: block_summary_def startswith_def)

lemma placeholder_not_fence: "\<not> is_fence file_dump_placeholder"
  by (simp add: is_fence_def file_dump_placeholder_def strip_def lstrip_def rstrip_def
      is_space_def startswith_def)

lemma placeholder_not_dump: "\<not> is_file_dump file_dump_placeholder"
  by (simp add: is_file_dump_def file_dump_placeholder_def)

lemma block_summary_not_placeholder: "block_summary cl \<noteq> file_dump_placeholder"
  by (simp add: block_summary_def file_dump_placeholder_def)

lemma block_summaries_plain: "\<not> is_fence l \<Longrightarrow> block_summaries (l # ls) = block_summaries ls"
  by (simp add: block_summaries.simps)

lemma block_summaries_closed_block:
  assumes "is_fence opn" "\<forall>l \<in> set inner. \<not> is_fence l" "is_fence c"
  shows "block_summaries (opn # inner @ c # post) =
    (if length inner + 2 > 10 then [block_summary (opn # inner @ [c])] else [])
    @ block_summaries post"
  using assms by (simp add: block_summaries.simps(2) collect_block_closed)

lemma block_summaries_open_block:
  assumes "is_fence opn" "\<forall>l \<in> set inner. \<not> is_fence l"
  shows "block_summaries (opn # inner) =
    (if length inner + 1 > 10 then [block_summary (opn # inner)] else [])"
  using assms by (simp add: block_summaries.simps collect_block_open)

lemma collapse_loop_twice:
  "(collapse_loop (collapse_loop ls) = collapse_loop ls) =
   (\<forall>p \<in> set (block_summaries ls). \<not> is_file_dump p)"
proof (induction ls rule: collapse_loop.induct)
  case 1 show ?case by (simp add: collapse_loop.simps block_summaries.simps)
next
  case (2 line ls)
  show ?case
  proof (cases "is_fence line")
    case False
    with "2.IH"(2) show ?thesis
      by (simp add: collapse_loop_plain block_summaries_plain placeholder_not_fence
          placeholder_not_dump)
  next
    case True
    from collect_block_cases [of ls] show ?thesis
    proof
      assume "\<exists>inner c. (\<forall>l \<in> set inner. \<not> is_fence l) \<and> is_fence c \<and>
        ls = inner @ c # snd (collect_block ls) \<and> fst (collect_block ls) = inner @ [c]"
      then obtain inner c where h: "\<forall>l \<in> set inner. \<not> is_fence l" "is_fence c"
        "ls = inner @ c # snd (collect_block ls)" "fst (collect_block ls) = inner @ [c]"
        by blast
      define rest where "rest = snd (collect_block ls)"
      have ls: "ls = inner @ c # rest" using h(3) rest_def by simp
      have ih: "(collapse_loop (collapse_loop rest) = collapse_loop rest) =
                (\<forall>p \<in> set (block_summaries rest). \<not> is_file_dump p)"
        using "2.IH"(1) [OF True refl refl] rest_def by simp
      note cb = collapse_loop_closed_block [OF True h(1) h(2)]
      note bs = block_summaries_closed_block [OF True h(1) h(2)]
      show ?thesis
      proof (cases "length inner + 2 > 10")
        case True
        then show ?thesis
          by (simp add: ls cb bs ih collapse_loop_plain block_summary_not_fence
              block_summary_not_placeholder [symmetric])
      next
        case False
        then show ?thesis by (simp add: ls cb bs ih)
      qed
    next
      assume a: "(\<forall>l \<in> set ls. \<not> is_fence l) \<and> collect_block ls = (ls, [])"
      then have nf: "\<forall>l \<in> set ls. \<not> is_fence l" by simp
      note ob = collapse_loop_open_block [OF True nf]
      note bs = block_summaries_open_block [OF True nf]
      show ?thesis
      proof (cases "length ls + 1 > 10")
        case True
        then show ?thesis
          by (simp add: ob bs collapse_loop_plain block_summary_not_fence
              block_summary_not_placeholder [symmetric] collapse_loop.simps(1))
      next
        case False
        then show ?thesis by (simp add: ob bs block_summaries.simps(1))
      qed
    qed
  qed
qed

lemma set_strip: "set (strip s) \<subseteq> set s"
proof -
  have "set (rstrip t) \<subseteq> set t" for t
    using set_dropWhileD [of _ is_space "rev t"] by (auto simp: rstrip_def)
  moreover have "set (lstrip s) \<subseteq> set s"
    by (auto simp: lstrip_def dest: set_dropWhileD)
  ultimately show ?thesis unfolding strip_def by blast
qed

lemma digit_char_not_newline: "d < 10 \<Longrightarrow> digit_char d \<noteq> newline"
proof -
  assume "d < 10"
  then have "of_char (digit_char d) = 48 + d"
    by (simp add: digit_char_def)
  moreover have "of_char newline = (10::nat)" by (simp add: newline_def)
  ultimately show ?thesis by auto
qed

lemma show_nat_no_newline: "newline \<notin> set (show_nat n)"
proof (induction n rule: show_nat.induct)
  case (1 n)
  show ?case
  proof (cases "n < 10")
    case True
    then show ?thesis using digit_char_not_newline [of n] by (simp add: show_nat.simps [of n])
  next
    case False
    then show ?thesis
      using 1 digit_char_not_newline [of "n mod 10"] by (simp add: show_nat.simps [of n])
  qed
qed

lemma block_label_no_newline:
  "\<forall>l \<in> set cl. newline \<notin> set l \<Longrightarrow> newline \<notin> set (block_label cl)"
proof (cases cl)
  case Nil then show ?thesis by simp
next
  case (Cons l0 ls)
  assume a: "\<forall>l \<in> set cl. newline \<notin> set l"
  have s0: "newline \<notin> set (strip l0)" using a Cons set_strip [of l0] by auto
  then have s1: "newline \<notin> set (strip (drop 3 (strip l0)))"
    using set_strip [of "drop 3 (strip l0)"] set_drop_subset [of 3 "strip l0"] by blast
  have s2: "ls \<noteq> [] \<Longrightarrow> newline \<notin> set (strip (hd ls))"
    using a Cons set_strip [of "hd ls"] by (cases ls) auto
  have "newline \<notin> set ''code''" by (simp add: newline_def)
  with s0 s1 s2 show ?thesis
    unfolding Cons by (cases ls) (simp_all add: Let_def)
qed

lemma block_summary_no_newline:
  "\<forall>l \<in> set cl. newline \<notin> set l \<Longrightarrow> newline \<notin> set (block_summary cl)"
  using block_label_no_newline [of cl] show_nat_no_newline [of "length cl"]
  by (simp add: block_summary_def newline_def)

lemma placeholder_no_newline: "newline \<notin> set file_dump_placeholder"
  by (simp add: file_dump_placeholder_def newline_def)

lemma collect_block_append: "fst (collect_block ls) @ snd (collect_block ls) = ls"
  by (induction ls) (auto split: prod.splits)

lemma collapse_loop_no_newline:
  "\<forall>l \<in> set ls. newline \<notin> set l \<Longrightarrow> \<forall>l \<in> set (collapse_loop ls). newline \<notin> set l"
proof (induction ls rule: collapse_loop.induct)
  case 1 show ?case by (simp add: collapse_loop.simps)
next
  case (2 line ls)
  show ?case
  proof (cases "is_fence line")
    case False
    with 2 show ?thesis by (simp add: collapse_loop_plain placeholder_no_newline)
  next
    case True
    have sub: "set (fst (collect_block ls)) \<union> set (snd (collect_block ls)) = set ls"
      using collect_block_append [of ls] by (metis set_append)
    have r: "\<forall>l \<in> set (collapse_loop (snd (collect_block ls))). newline \<notin> set l"
      using "2.IH"(1) [OF True refl refl] "2.prems" sub by auto
    have c: "\<forall>l \<in> set (line # fst (collect_block ls)). newline \<notin> set l"
      using "2.prems" sub by auto
    from c have "newline \<notin> set (block_summary (line # fst (collect_block ls)))"
      by (rule block_summary_no_newline)
    with r c True show ?thesis by (auto simp: collapse_loop.simps(2) Let_def)
  qed
qed

lemma collapse_loop_nonempty: "ls \<noteq> [] \<Longrightarrow> collapse_loop ls \<noteq> []"
  by (cases ls) (simp_all add: collapse_loop.simps Let_def)

lemma join_nl_inject:
  assumes "xs \<noteq> []" "ys \<noteq> []" "\<forall>l \<in> set xs. newline \<notin> set l" "\<forall>l \<in> set ys. newline \<notin> set l"
  shows "(join_nl xs = join_nl ys) = (xs = ys)"
  using assms split_join_nl by metis

lemma collapse_loop_split_no_newline:
  "\<forall>l \<in> set (collapse_loop (split_nl x)). newline \<notin> set l"
  by (rule collapse_loop_no_newline) (simp add: split_nl_no_newline)

lemma split_collapse_code_blocks:
  "split_nl (collapse_code_blocks x) = collapse_loop (split_nl x)"
  unfolding collapse_code_blocks_def
  by (rule split_join_nl [OF _ collapse_loop_split_no_newline])
     (simp add: collapse_loop_nonempty split_nl_nonempty)

subsection \<open>Idempotence of the normalizer\<close>

text \<open>
  Claim C1, as amended. The normalizer is not idempotent on every input: a collapsed block's
  summary line \<open>[code block: <label>... (<N> lines)]\<close> carries a label taken from the input,
  and when that line is longer than 500 characters and contains a code indicator, the second
  run replaces it by the file-dump placeholder. Running the normalizer on its own output
  changes nothing exactly when no summary line that the first run writes is such a line
  (\<^const>\<open>block_summaries\<close> lists the summary lines of the first run).
\<close>

theorem normalizer_idempotent_iff:
  "(collapse_code_blocks (collapse_code_blocks x) = collapse_code_blocks x) =
   (\<forall>p \<in> set (block_summaries (split_nl x)). \<not> is_file_dump p)"
proof -
  let ?r = "collapse_loop (split_nl x)"
  have ne: "?r \<noteq> []" by (simp add: collapse_loop_nonempty split_nl_nonempty)
  have nn: "\<forall>l \<in> set ?r. newline \<notin> set l"
    by (rule collapse_loop_split_no_newline)
  have nn2: "\<forall>l \<in> set (collapse_loop ?r). newline \<notin> set l"
    by (rule collapse_loop_no_newline [OF nn])
  have "(collapse_code_blocks (collapse_code_blocks x) = collapse_code_blocks x) =
        (join_nl (collapse_loop ?r) = join_nl ?r)"
    by (simp add: collapse_code_blocks_def [of "collapse_code_blocks x"]
        split_collapse_code_blocks) (simp add: collapse_code_blocks_def)
  also have "\<dots> = (collapse_loop ?r = ?r)"
    by (rule join_nl_inject [OF collapse_loop_nonempty [OF ne] ne nn2 nn])
  finally show ?thesis by (simp add: collapse_loop_twice)
qed

lemma contains_char: "contains s [c] = (c \<in> set s)"
  by (induction s) (auto simp: startswith_def)

lemma contains_prefix: "contains (p @ s) p"
  by (cases "p @ s") (simp_all add: startswith_def, metis append_eq_conv_conj)

lemma is_fence_backticks: "is_fence ''```''"
  by (simp add: is_fence_def strip_def lstrip_def rstrip_def is_space_def startswith_def)

lemma is_fence_empty: "\<not> is_fence []"
  by (simp add: is_fence_def strip_def lstrip_def rstrip_def startswith_def)

lemma strip_backticks: "strip ''```'' = ''```''"
  by (rule strip_id) (simp_all add: is_space_def)

lemma strip_empty: "strip [] = []"
  by (simp add: strip_def lstrip_def rstrip_def)

lemma strip_brace_line: "strip (CHR ''{'' # replicate 500 CHR ''a'') = CHR ''{'' # replicate 500 CHR ''a''"
  by (rule strip_id) (simp_all add: is_space_def)

lemma brace_line_not_fence: "\<not> is_fence (CHR ''{'' # replicate 500 CHR ''a'')"
  unfolding is_fence_def strip_brace_line by (simp add: startswith_def)

lemma brace_block_summary_dump:
  "is_file_dump (block_summary
     (''```'' # (CHR ''{'' # replicate 500 CHR ''a'') # replicate 8 [] @ [''```'']))"
proof -
  let ?cl = "''```'' # (CHR ''{'' # replicate 500 CHR ''a'') # replicate 8 [] @ [''```'']"
  have lab: "block_label ?cl = CHR ''{'' # replicate 500 CHR ''a''"
    by (simp add: strip_backticks strip_empty strip_brace_line startswith_def)
  have "length (block_summary ?cl) > 500"
    unfolding block_summary_def lab by simp
  moreover have "contains (block_summary ?cl) ''{''"
    unfolding contains_char block_summary_def lab by simp
  ultimately show ?thesis by (simp add: is_file_dump_def indicators_def)
qed

text \<open>
  Claim C1 as stated fails on a block of 11 lines opened by a bare fence whose first code
  line is \<open>{\<close> followed by 500 letters: the first run writes a summary of 529 characters
  containing \<open>{\<close>, the second run turns it into \<open>[file dump: long code output stripped]\<close>.
\<close>

theorem normalizer_not_idempotent:
  "collapse_code_blocks (collapse_code_blocks
     (join_nl (''```'' # (CHR ''{'' # replicate 500 CHR ''a'') # replicate 8 [] @ [''```''])))
   \<noteq> collapse_code_blocks
     (join_nl (''```'' # (CHR ''{'' # replicate 500 CHR ''a'') # replicate 8 [] @ [''```'']))"
proof -
  let ?inner = "(CHR ''{'' # replicate 500 CHR ''a'') # replicate 8 []"
  let ?cl = "''```'' # ?inner @ [''```'']"
  have nn: "\<forall>l \<in> set ?cl. newline \<notin> set l" by (simp add: newline_def)
  have sp: "split_nl (join_nl ?cl) = ?cl" by (rule split_join_nl [OF _ nn]) simp
  have inner: "\<forall>l \<in> set ?inner. \<not> is_fence l"
    by (simp add: brace_line_not_fence is_fence_empty)
  have "collapse_loop (''```'' # ?inner @ ''```'' # []) = [block_summary ?cl]"
    using collapse_loop_closed_block [OF is_fence_backticks inner is_fence_backticks, of "[]"]
    by (simp add: collapse_loop.simps(1))
  then have once: "collapse_code_blocks (join_nl ?cl) = block_summary ?cl"
    using sp by (simp add: collapse_code_blocks_def)
  have "split_nl (block_summary ?cl) = [block_summary ?cl]"
    by (rule split_nl_line) (rule block_summary_no_newline [OF nn])
  then have twice: "collapse_code_blocks (block_summary ?cl) = file_dump_placeholder"
    using brace_block_summary_dump
    by (simp add: collapse_code_blocks_def collapse_loop_plain block_summary_not_fence
        collapse_loop.simps(1))
  show ?thesis
    using once twice block_summary_not_placeholder [of ?cl] by simp
qed

text \<open>An input with a collapsed block on which the normalizer is idempotent.\<close>

theorem normalizer_idempotent_iff_witness:
  "collapse_code_blocks (collapse_code_blocks
       (join_nl (''intro'' # ''```python'' # replicate 10 ''x = {1}'' @ [''```'', ''outro'']))) =
   collapse_code_blocks
       (join_nl (''intro'' # ''```python'' # replicate 10 ''x = {1}'' @ [''```'', ''outro'']))"
proof -
  have h: "\<forall>p \<in> set (block_summaries (split_nl
       (join_nl (''intro'' # ''```python'' # replicate 10 ''x = {1}'' @ [''```'', ''outro''])))).
      \<not> is_file_dump p"
    by code_simp
  with normalizer_idempotent_iff
    [of "join_nl (''intro'' # ''```python'' # replicate 10 ''x = {1}'' @ [''```'', ''outro''])"]
  show ?thesis by blast
qed

subsection \<open>The 10-line threshold of fenced blocks\<close>

text \<open>
  Claim C4. Let the lines of the input be \<open>pre\<close>, then a fence line \<open>opn\<close>, then lines
  \<open>inner\<close> that are not fences, then either a closing fence or the end of the text, then
  \<open>post\<close>; let \<open>opn\<close> open a block, that is, let \<open>pre\<close> hold an even number of fence
  lines. If the block, fences included, has at most 10 lines (so also when it has exactly 10),
  the output has these lines unchanged between the normalized \<open>pre\<close> and the normalized
  \<open>post\<close>; if it has 11 or more, the output has in their place the one line
  \<open>[code block: <label>... (<N> lines)]\<close>, \<open>N\<close> the number of lines of the block with its
  fences. An unterminated block takes all the remaining lines.
\<close>

theorem fenced_block_threshold:
  assumes "split_nl x = pre @ opn # inner @ closing @ post"
    and "even (length (filter is_fence pre))"
    and "is_fence opn"
    and "\<forall>l \<in> set inner. \<not> is_fence l"
    and "(\<exists>c. closing = [c] \<and> is_fence c) \<or> (closing = [] \<and> post = [])"
  shows "collapse_code_blocks x =
    join_nl (collapse_loop pre @
      (if length (opn # inner @ closing) \<le> 10 then opn # inner @ closing
       else [block_summary (opn # inner @ closing)]) @
      collapse_loop post)"
proof -
  have "collapse_loop (opn # inner @ closing @ post) =
      (if length (opn # inner @ closing) \<le> 10 then opn # inner @ closing
       else [block_summary (opn # inner @ closing)]) @ collapse_loop post"
    using assms(5)
  proof
    assume "\<exists>c. closing = [c] \<and> is_fence c"
    then obtain c where c: "closing = [c]" "is_fence c" by blast
    show ?thesis
      using collapse_loop_closed_block [OF assms(3,4) c(2), of post] by (auto simp: c(1))
  next
    assume "closing = [] \<and> post = []"
    then show ?thesis
      using collapse_loop_open_block [OF assms(3,4)] by (auto simp: collapse_loop.simps(1))
  qed
  then show ?thesis
    by (simp add: collapse_code_blocks_def assms(1) collapse_loop_append [OF assms(2)])
qed

text \<open>A block of 10 lines, a block of 11 lines and an unterminated block of 11 lines.\<close>

theorem fenced_block_threshold_witness:
  "collapse_code_blocks (join_nl (''intro'' # ''```py'' # replicate 8 ''pass'' @ [''```'', ''outro''])) =
     join_nl (''intro'' # ''```py'' # replicate 8 ''pass'' @ [''```'', ''outro'']) \<and>
   collapse_code_blocks (join_nl (''intro'' # ''```py'' # replicate 9 ''pass'' @ [''```'', ''outro''])) =
     join_nl [''intro'', ''[code block: py... (11 lines)]'', ''outro''] \<and>
   collapse_code_blocks (join_nl (''intro'' # '' ```'' # replicate 10 ''  pass'')) =
     join_nl [''intro'', ''[code block: pass... (11 lines)]'']"
proof -
  have f1: "is_fence ''```py''" and f2: "is_fence ''```''" and f3: "is_fence '' ```''" by code_simp+
  have ev: "even (length (filter is_fence [''intro'']))" by code_simp
  have i8: "\<forall>l \<in> set (replicate 8 ''pass''). \<not> is_fence l" by code_simp
  have i9: "\<forall>l \<in> set (replicate 9 ''pass''). \<not> is_fence l" by code_simp
  have i10: "\<forall>l \<in> set (replicate 10 ''  pass''). \<not> is_fence l" by code_simp
  have c: "(\<exists>c. [''```''] = [c] \<and> is_fence c) \<or> ([''```''] = [] \<and> [''outro''] = [])"
    using f2 by simp
  have o: "(\<exists>c. [] = [c] \<and> is_fence c) \<or> ([] = ([]::string list) \<and> [] = ([]::string list))"
    by simp
  have s8: "split_nl (join_nl (''intro'' # ''```py'' # replicate 8 ''pass'' @ [''```'', ''outro''])) =
     [''intro''] @ ''```py'' # replicate 8 ''pass'' @ [''```''] @ [''outro'']" by code_simp
  have s9: "split_nl (join_nl (''intro'' # ''```py'' # replicate 9 ''pass'' @ [''```'', ''outro''])) =
     [''intro''] @ ''```py'' # replicate 9 ''pass'' @ [''```''] @ [''outro'']" by code_simp
  have s10: "split_nl (join_nl (''intro'' # '' ```'' # replicate 10 ''  pass'')) =
     [''intro''] @ '' ```'' # replicate 10 ''  pass'' @ [] @ []" by code_simp
  have r1: "collapse_loop [''intro''] = [''intro'']" and r2: "collapse_loop [''outro''] = [''outro'']"
    and r3: "collapse_loop [] = []" by code_simp+
  have b9: "block_summary (''```py'' # replicate 9 ''pass'' @ [''```'']) = ''[code block: py... (11 lines)]''"
    by code_simp
  have b10: "block_summary ('' ```'' # replicate 10 ''  pass'') = ''[code block: pass... (11 lines)]''"
    by code_simp
  show ?thesis
    using fenced_block_threshold [OF s8 ev f1 i8 c] fenced_block_threshold [OF s9 ev f1 i9 c]
      fenced_block_threshold [OF s10 ev f3 i10 o]
    by (simp add: r1 r2 r3 b9 b10)
qed

subsection \<open>Long-line suppression\<close>

text \<open>
  Claim C5. A line that is not a fence and stands after an even number of fence lines (a line
  outside every fenced block) is replaced by \<open>[file dump: long code output stripped]\<close> if it
  is longer than 500 characters and contains one of the code indicators, and is passed through
  unchanged otherwise; the lines before and after it are normalized independently of it.
\<close>

theorem long_line_suppression:
  assumes "split_nl x = pre @ line # post"
    and "even (length (filter is_fence pre))"
    and "\<not> is_fence line"
  shows "collapse_code_blocks x =
    join_nl (collapse_loop pre @
      (if length line > 500 \<and>
          (contains line ''def '' \<or> contains line ''class '' \<or> contains line ''import '' \<or>
           contains line ''function '' \<or> contains line ''{'')
       then ''[file dump: long code output stripped]'' else line) # collapse_loop post)"
proof -
  have d: "is_file_dump line =
    (length line > 500 \<and>
       (contains line ''def '' \<or> contains line ''class '' \<or> contains line ''import '' \<or>
        contains line ''function '' \<or> contains line ''{''))"
    by (simp add: is_file_dump_def indicators_def)
  have "collapse_code_blocks x =
    join_nl (collapse_loop pre @
      (if is_file_dump line then file_dump_placeholder else line) # collapse_loop post)"
    by (simp add: collapse_code_blocks_def assms(1) collapse_loop_append [OF assms(2)]
        collapse_loop_plain [OF assms(3)])
  then show ?thesis unfolding d file_dump_placeholder_def .
qed

lemma import_line_not_fence: "0 < n \<Longrightarrow> \<not> is_fence (''import '' @ replicate n CHR ''a'')"
proof -
  assume n: "0 < n"
  have "strip (''import '' @ replicate n CHR ''a'') = ''import '' @ replicate n CHR ''a''"
    by (rule strip_id) (simp_all add: is_space_def n)
  then show ?thesis by (simp add: is_fence_def startswith_def)
qed

text \<open>
  The line \<open>import\<close>, a space and 494 letters (501 characters) is replaced; the same line cut
  to 500 characters is kept.
\<close>

theorem long_line_suppression_witness:
  "collapse_code_blocks (''import '' @ replicate 494 CHR ''a'') =
     ''[file dump: long code output stripped]'' \<and>
   collapse_code_blocks (take 500 (''import '' @ replicate 494 CHR ''a'')) =
     take 500 (''import '' @ replicate 494 CHR ''a'')"
proof -
  have tk: "take 500 (''import '' @ replicate 494 CHR ''a'') = ''import '' @ replicate 493 CHR ''a''"
    by simp
  have sp: "split_nl (''import '' @ replicate n CHR ''a'') =
            [] @ (''import '' @ replicate n CHR ''a'') # []" for n
    using split_nl_line [of "''import '' @ replicate n CHR ''a''"] by (simp add: newline_def)
  have ev: "even (length (filter is_fence []))" by simp
  have ind: "contains (''import '' @ replicate n CHR ''a'') ''import ''" for n
    by (rule contains_prefix)
  have a: "collapse_code_blocks (''import '' @ replicate 494 CHR ''a'') =
             ''[file dump: long code output stripped]''"
    using long_line_suppression [OF sp ev import_line_not_fence, of 494] ind [of 494]
    by (simp add: collapse_loop.simps(1) del: contains.simps)
  have b: "collapse_code_blocks (''import '' @ replicate 493 CHR ''a'') =
           ''import '' @ replicate 493 CHR ''a''"
    using long_line_suppression [OF sp ev import_line_not_fence, of 493]
    by (simp add: collapse_loop.simps(1) del: contains.simps)
  show ?thesis unfolding tk using a b by simp
qed

section \<open>Properties of the message filter of format A\<close>

lemma read_record_no_turn:
  assumes "extract_user_message msg_obj = Inr None"
    and "extract_assistant_message msg_obj = Inr None"
  shows "\<exists>sc'. read_record sc (JObj msg_obj) = Inr sc' \<and> messages sc' = messages sc \<and>
           first_user_message sc' = first_user_message sc"
  using assms by (simp add: read_record_def Let_def)

text \<open>
  Claim C6. A record of format A whose message has role \<open>user\<close> and a string content that
  contains \<open><command-\<close> or \<open><local-command-\<close> is dropped whole: \<open>_extract_user_message\<close>
  returns \<open>None\<close>, and the parse loop appends no turn for it and leaves the first user
  message as it was.
\<close>

theorem command_message_dropped:
  assumes "map_of msg_obj ''message'' = Some (JObj message)"
    and "dict_get message ''role'' = JStr ''user''"
    and "dict_get message ''content'' = JStr content"
    and "contains content ''<command-'' \<or> contains content ''<local-command-''"
  shows "extract_user_message msg_obj = Inr None \<and>
         (\<exists>sc'. read_record sc (JObj msg_obj) = Inr sc' \<and> messages sc' = messages sc \<and>
            first_user_message sc' = first_user_message sc)"
proof -
  have u: "extract_user_message msg_obj = Inr None"
    using assms by (simp add: extract_user_message_def dict_get_or_def is_command_message_def)
  have a: "extract_assistant_message msg_obj = Inr None"
    using assms(1,2) by (simp add: extract_assistant_message_def dict_get_or_def)
  from u read_record_no_turn [OF u a] show ?thesis by simp
qed

lemma tool_result_not_text: "is_block_of ''tool_result'' b \<Longrightarrow> \<not> is_block_of ''text'' b"
  by (auto simp: is_block_of_def split: json.splits)

lemma tool_result_no_text: "is_block_of ''tool_result'' b \<Longrightarrow> text_of_block b = []"
  by (auto simp: text_of_block_def is_block_of_def split: json.splits option.splits)

text \<open>
  Claim C7. A record of format A whose message has role \<open>user\<close> and a block list in which
  every block is a \<open>tool_result\<close> block (so none is a \<open>text\<close> block) is dropped whole: no
  turn is appended for it.
\<close>

theorem tool_result_message_dropped:
  assumes "map_of msg_obj ''message'' = Some (JObj message)"
    and "dict_get message ''role'' = JStr ''user''"
    and "dict_get message ''content'' = JArr blocks"
    and "\<forall>b \<in> set blocks. is_block_of ''tool_result'' b"
  shows "extract_user_message msg_obj = Inr None \<and>
         (\<exists>sc'. read_record sc (JObj msg_obj) = Inr sc' \<and> messages sc' = messages sc \<and>
            first_user_message sc' = first_user_message sc)"
proof -
  have nt: "\<not> list_ex (is_block_of ''text'') blocks"
    using assms(4) tool_result_not_text by (auto simp: list_ex_iff)
  have tx: "extract_text_blocks (JArr blocks) = []"
    using assms(4) tool_result_no_text by (simp add: extract_text_blocks_def)
  have u: "extract_user_message msg_obj = Inr None"
    using assms(1,2,3) nt tx
    by (simp add: extract_user_message_def dict_get_or_def Let_def)
  have a: "extract_assistant_message msg_obj = Inr None"
    using assms(1,2) by (simp add: extract_assistant_message_def dict_get_or_def)
  from u read_record_no_turn [OF u a] show ?thesis by simp
qed

text \<open>The message \<open>please run <command-name>build</command-name>\<close> yields no turn.\<close>

theorem command_message_dropped_witness:
  "extract_user_message
     [(''type'', JStr ''user''),
      (''message'', JObj [(''role'', JStr ''user''),
         (''content'', JStr ''please run <command-name>build</command-name>'')])] = Inr None \<and>
   (\<exists>sc'. read_record init_scan (JObj
     [(''type'', JStr ''user''),
      (''message'', JObj [(''role'', JStr ''user''),
         (''content'', JStr ''please run <command-name>build</command-name>'')])]) = Inr sc' \<and>
      messages sc' = messages init_scan \<and> first_user_message sc' = first_user_message init_scan)"
proof -
  have c: "contains ''please run <command-name>build</command-name>'' ''<command-'' \<or>
           contains ''please run <command-name>build</command-name>'' ''<local-command-''"
    by code_simp
  show ?thesis
    by (rule command_message_dropped
          [where message = "[(''role'', JStr ''user''),
             (''content'', JStr ''please run <command-name>build</command-name>'')]", OF _ _ _ c])
       (simp_all add: dict_get_def)
qed

text \<open>A user message made of one \<open>tool_result\<close> block yields no turn.\<close>

theorem tool_result_message_dropped_witness:
  "extract_user_message
     [(''type'', JStr ''user''),
      (''message'', JObj [(''role'', JStr ''user''),
         (''content'', JArr [JObj [(''type'', JStr ''tool_result''), (''content'', JStr ''ok'')]])])]
     = Inr None \<and>
   (\<exists>sc'. read_record init_scan (JObj
     [(''type'', JStr ''user''),
      (''message'', JObj [(''role'', JStr ''user''),
         (''content'', JArr [JObj [(''type'', JStr ''tool_result''), (''content'', JStr ''ok'')]])])])
       = Inr sc' \<and>
      messages sc' = messages init_scan \<and> first_user_message sc' = first_user_message init_scan)"
  by (rule tool_result_message_dropped
        [where blocks = "[JObj [(''type'', JStr ''tool_result''), (''content'', JStr ''ok'')]]"
           and message = "[(''role'', JStr ''user''),
             (''content'', JArr [JObj [(''type'', JStr ''tool_result''), (''content'', JStr ''ok'')]])]"])
     (simp_all add: dict_get_def is_block_of_def)

section \<open>Properties of the turns of format B\<close>

lemma read_parts_timestamps:
  "read_parts role agent mt msgs parts = Inr out \<Longrightarrow>
   \<exists>new. out = msgs @ new \<and>
     (\<forall>t \<in> set new. \<exists>part. Some part \<in> set parts \<and>
        extract_part_text part = Inr (Some (p_text t)) \<and>
        p_timestamp_ms t = get_part_timestamp part mt)"
proof (induction parts arbitrary: msgs)
  case Nil
  then show ?case by simp
next
  case (Cons p parts)
  show ?case
  proof (cases p)
    case None
    with Cons.prems have "read_parts role agent mt msgs parts = Inr out" by simp
    from Cons.IH [OF this] show ?thesis by (metis list.set_intros(2))
  next
    case (Some part)
    show ?thesis
    proof (cases "part = [] \<or> extract_part_text part = Inr None")
      case True
      with Cons.prems Some have "read_parts role agent mt msgs parts = Inr out"
        by (auto split: if_splits)
      from Cons.IH [OF this] show ?thesis by (metis list.set_intros(2))
    next
      case False
      with Cons.prems Some obtain tx0 where
        tx: "extract_part_text part = Inr (Some tx0)" and
        rp: "read_parts role agent mt
               (msgs @ [\<lparr>p_role = role, p_text = tx0,
                          p_timestamp_ms = get_part_timestamp part mt, p_agent = agent\<rparr>]) parts
             = Inr out"
        by (auto split: sum.splits option.splits if_splits)
      from Cons.IH [OF rp] obtain new where
        n: "out = (msgs @ [\<lparr>p_role = role, p_text = tx0,
                          p_timestamp_ms = get_part_timestamp part mt, p_agent = agent\<rparr>]) @ new"
        and a: "\<forall>t \<in> set new. \<exists>part. Some part \<in> set parts \<and>
            extract_part_text part = Inr (Some (p_text t)) \<and>
            p_timestamp_ms t = get_part_timestamp part mt"
        by blast
      let ?t = "\<lparr>p_role = role, p_text = tx0,
                 p_timestamp_ms = get_part_timestamp part mt, p_agent = agent\<rparr>"
      have "out = msgs @ (?t # new)" using n by simp
      moreover have "\<forall>t \<in> set (?t # new). \<exists>q. Some q \<in> set (p # parts) \<and>
            extract_part_text q = Inr (Some (p_text t)) \<and>
            p_timestamp_ms t = get_part_timestamp q mt"
        using a tx Some by auto
      ultimately show ?thesis by blast
    qed
  qed
qed

lemma get_part_timestamp_cases:
  "get_part_timestamp part mt =
     (case map_of part ''time'' of
        Some (JObj part_time) \<Rightarrow>
          (case map_of part_time ''start'' of
             Some start \<Rightarrow> if truthy start then start else mt
           | None \<Rightarrow> mt)
      | _ \<Rightarrow> mt)"
  by (simp add: get_part_timestamp_def dict_get_or_def dict_get_def Let_def
      split: option.splits json.splits)

lemma message_time_ms_of_cases:
  "message_time_ms_of message =
     (case map_of message ''time'' of
        Some (JObj message_time) \<Rightarrow>
          (case map_of message_time ''created'' of Some created \<Rightarrow> created | None \<Rightarrow> JNull)
      | _ \<Rightarrow> JNull)"
  by (simp add: message_time_ms_of_def dict_get_or_def dict_get_def
      split: option.splits json.splits)

lemma read_message_turn_sources:
  "(read_message st (msgs, first) (Some message) = Inr (msgs', first') \<longrightarrow>
      (\<exists>new. msgs' = msgs @ new \<and>
         (\<forall>t \<in> set new. \<exists>message_time created mid parts part.
            map_of message ''time'' = Some (JObj message_time) \<and>
            map_of message_time ''created'' = Some created \<and> truthy created \<and>
            map_of message ''id'' = Some (JStr mid) \<and> part_dir st mid = Some parts \<and>
            Some part \<in> set parts \<and>
            extract_part_text part = Inr (Some (p_text t)) \<and>
            p_timestamp_ms t =
              (case map_of part ''time'' of
                 Some (JObj part_time) \<Rightarrow>
                   (case map_of part_time ''start'' of
                      Some start \<Rightarrow> if truthy start then start else created
                    | None \<Rightarrow> created)
               | _ \<Rightarrow> created)))) \<and>
   ((case map_of message ''time'' of
       Some (JObj message_time) \<Rightarrow>
         (case map_of message_time ''created'' of Some created \<Rightarrow> \<not> truthy created | None \<Rightarrow> True)
     | _ \<Rightarrow> True) \<longrightarrow>
      read_message st (msgs, first) (Some message) = Inr (msgs, first))"
proof (intro conjI impI)
  assume skip: "case map_of message ''time'' of
       Some (JObj message_time) \<Rightarrow>
         (case map_of message_time ''created'' of Some created \<Rightarrow> \<not> truthy created | None \<Rightarrow> True)
     | _ \<Rightarrow> True"
  then have "\<not> truthy (message_time_ms_of message)"
    unfolding message_time_ms_of_cases by (auto split: option.splits json.splits)
  then show "read_message st (msgs, first) (Some message) = Inr (msgs, first)"
    by (simp add: read_message_def Let_def)
next
  assume r: "read_message st (msgs, first) (Some message) = Inr (msgs', first')"
  let ?mt = "message_time_ms_of message"
  show "\<exists>new. msgs' = msgs @ new \<and>
         (\<forall>t \<in> set new. \<exists>message_time created mid parts part.
            map_of message ''time'' = Some (JObj message_time) \<and>
            map_of message_time ''created'' = Some created \<and> truthy created \<and>
            map_of message ''id'' = Some (JStr mid) \<and> part_dir st mid = Some parts \<and>
            Some part \<in> set parts \<and>
            extract_part_text part = Inr (Some (p_text t)) \<and>
            p_timestamp_ms t =
              (case map_of part ''time'' of
                 Some (JObj part_time) \<Rightarrow>
                   (case map_of part_time ''start'' of
                      Some start \<Rightarrow> if truthy start then start else created
                    | None \<Rightarrow> created)
               | _ \<Rightarrow> created))"
  proof (cases "message \<noteq> [] \<and> truthy ?mt \<and> truthy (dict_get message ''id'') \<and>
                (\<exists>mid parts. dict_get message ''id'' = JStr mid \<and> part_dir st mid = Some parts)")
    case False
    with r have "msgs' = msgs"
      by (auto simp: read_message_def Let_def split: if_splits json.splits option.splits)
    then show ?thesis by simp
  next
    case True
    then obtain mid parts where
      ne: "message \<noteq> []" and tr: "truthy ?mt" and
      id: "dict_get message ''id'' = JStr mid" and pd: "part_dir st mid = Some parts" and
      tid: "truthy (dict_get message ''id'')"
      by blast
    from tid id have mne: "mid \<noteq> []" by simp
    from tr obtain message_time created where
      mt: "map_of message ''time'' = Some (JObj message_time)"
          "map_of message_time ''created'' = Some created" "?mt = created"
      unfolding message_time_ms_of_cases by (auto split: option.splits json.splits)
    have idm: "map_of message ''id'' = Some (JStr mid)"
      using id by (auto simp: dict_get_def split: option.splits)
    from r ne tr id pd mne have
      "read_parts (dict_get message ''role'') (dict_get_or message ''agent'' (JStr [])) ?mt
         msgs parts = Inr msgs'"
      by (auto simp: read_message_def Let_def split: sum.splits)
    from read_parts_timestamps [OF this] obtain new where
      n: "msgs' = msgs @ new" and
      a: "\<forall>t \<in> set new. \<exists>part. Some part \<in> set parts \<and>
            extract_part_text part = Inr (Some (p_text t)) \<and>
            p_timestamp_ms t = get_part_timestamp part ?mt"
      by blast
    have "\<forall>t \<in> set new. \<exists>message_time created mid parts part.
            map_of message ''time'' = Some (JObj message_time) \<and>
            map_of message_time ''created'' = Some created \<and> truthy created \<and>
            map_of message ''id'' = Some (JStr mid) \<and> part_dir st mid = Some parts \<and>
            Some part \<in> set parts \<and>
            extract_part_text part = Inr (Some (p_text t)) \<and>
            p_timestamp_ms t =
              (case map_of part ''time'' of
                 Some (JObj part_time) \<Rightarrow>
                   (case map_of part_time ''start'' of
                      Some start \<Rightarrow> if truthy start then start else created
                    | None \<Rightarrow> created)
               | _ \<Rightarrow> created)"
    proof
      fix t assume "t \<in> set new"
      with a obtain part where p: "Some part \<in> set parts"
        "extract_part_text part = Inr (Some (p_text t))"
        "p_timestamp_ms t = get_part_timestamp part ?mt" by blast
      show "\<exists>message_time created mid parts part.
            map_of message ''time'' = Some (JObj message_time) \<and>
            map_of message_time ''created'' = Some created \<and> truthy created \<and>
            map_of message ''id'' = Some (JStr mid) \<and> part_dir st mid = Some parts \<and>
            Some part \<in> set parts \<and>
            extract_part_text part = Inr (Some (p_text t)) \<and>
            p_timestamp_ms t =
              (case map_of part ''time'' of
                 Some (JObj part_time) \<Rightarrow>
                   (case map_of part_time ''start'' of
                      Some start \<Rightarrow> if truthy start then start else created
                    | None \<Rightarrow> created)
               | _ \<Rightarrow> created)"
        using mt(1,2) tr mt(3) idm pd p(1,2) p(3) [unfolded get_part_timestamp_cases mt(3)]
        by (intro exI [of _ message_time] exI [of _ created] exI [of _ mid] exI [of _ parts]
            exI [of _ part]) simp
    qed
    with n show ?thesis by blast
  qed
qed

lemma extract_part_text_empty: "extract_part_text [] = Inr None"
  by (simp add: extract_part_text_def should_skip_part_def dict_get_def)

lemma read_parts_exact:
  assumes "\<forall>part. Some part \<in> set parts \<longrightarrow> \<not> isl (extract_part_text part)"
  shows "read_parts role agent mt msgs parts =
    Inr (msgs @ List.map_filter (\<lambda>p.
      case p of
        None \<Rightarrow> None
      | Some part \<Rightarrow>
          (case extract_part_text part of
             Inr (Some t) \<Rightarrow>
               Some \<lparr>p_role = role, p_text = t,
                     p_timestamp_ms = get_part_timestamp part mt, p_agent = agent\<rparr>
           | _ \<Rightarrow> None)) parts)"
  using assms
proof (induction parts arbitrary: msgs)
  case Nil
  show ?case by (simp add: map_filter_simps)
next
  case (Cons p parts)
  then have ih: "\<And>msgs. read_parts role agent mt msgs parts =
    Inr (msgs @ List.map_filter (\<lambda>p.
      case p of
        None \<Rightarrow> None
      | Some part \<Rightarrow>
          (case extract_part_text part of
             Inr (Some t) \<Rightarrow>
               Some \<lparr>p_role = role, p_text = t,
                     p_timestamp_ms = get_part_timestamp part mt, p_agent = agent\<rparr>
           | _ \<Rightarrow> None)) parts)"
    by simp
  show ?case
  proof (cases p)
    case None
    then show ?thesis by (simp add: ih map_filter_simps)
  next
    case (Some part)
    with Cons.prems have ne: "\<not> isl (extract_part_text part)" by simp
    show ?thesis
    proof (cases "part = []")
      case True
      with Some show ?thesis by (simp add: ih map_filter_simps extract_part_text_empty)
    next
      case False
      from ne obtain r where r: "extract_part_text part = Inr r"
        by (cases "extract_part_text part") auto
      show ?thesis
        using Some False r by (cases r) (simp_all add: ih map_filter_simps)
    qed
  qed
qed

text \<open>
  Claim C10. For a message with a truthy \<open>time.created\<close> whose parts are read without an
  exception, the loop body of \<open>convert_session\<close> appends exactly one turn for every retained
  part, in the order of the parts, and nothing else. The timestamp of the turn is the part's
  \<open>time.start\<close> when the part's \<open>time\<close> is an object with a truthy \<open>start\<close>, and the
  message's \<open>time.created\<close> otherwise. A message whose \<open>time\<close> is not an object, or whose
  \<open>time.created\<close> is missing or falsy (zero), is skipped with all its parts: the turns and the
  first timestamp stay as they were. Whenever the loop body returns, every turn it appended
  comes from a retained part of a message with a truthy \<open>time.created\<close> and has that timestamp.
\<close>

theorem part_timestamp_fallback:
  "(message \<noteq> [] \<and> map_of message ''time'' = Some (JObj message_time) \<and>
    map_of message_time ''created'' = Some created \<and> truthy created \<and>
    map_of message ''id'' = Some (JStr mid) \<and> mid \<noteq> [] \<and> part_dir st mid = Some parts \<and>
    (\<forall>part. Some part \<in> set parts \<longrightarrow> \<not> isl (extract_part_text part)) \<longrightarrow>
      read_message st (msgs, first) (Some message) =
        Inr (msgs @ List.map_filter (\<lambda>p.
               case p of
                 None \<Rightarrow> None
               | Some part \<Rightarrow>
                   (case extract_part_text part of
                      Inr (Some t) \<Rightarrow>
                        Some \<lparr>p_role = dict_get message ''role'', p_text = t,
                              p_timestamp_ms =
                                (case map_of part ''time'' of
                                   Some (JObj part_time) \<Rightarrow>
                                     (case map_of part_time ''start'' of
                                        Some start \<Rightarrow> if truthy start then start else created
                                      | None \<Rightarrow> created)
                                 | _ \<Rightarrow> created),
                              p_agent = dict_get_or message ''agent'' (JStr [])\<rparr>
                    | _ \<Rightarrow> None)) parts,
             if first = JNull then created else first)) \<and>
   ((case map_of message ''time'' of
       Some (JObj message_time) \<Rightarrow>
         (case map_of message_time ''created'' of Some created \<Rightarrow> \<not> truthy created | None \<Rightarrow> True)
     | _ \<Rightarrow> True) \<longrightarrow>
      read_message st (msgs, first) (Some message) = Inr (msgs, first)) \<and>
   (read_message st (msgs, first) (Some message) = Inr (msgs', first') \<longrightarrow>
      (\<exists>new. msgs' = msgs @ new \<and>
         (\<forall>t \<in> set new. \<exists>message_time created mid parts part.
            map_of message ''time'' = Some (JObj message_time) \<and>
            map_of message_time ''created'' = Some created \<and> truthy created \<and>
            map_of message ''id'' = Some (JStr mid) \<and> part_dir st mid = Some parts \<and>
            Some part \<in> set parts \<and>
            extract_part_text part = Inr (Some (p_text t)) \<and>
            p_timestamp_ms t =
              (case map_of part ''time'' of
                 Some (JObj part_time) \<Rightarrow>
                   (case map_of part_time ''start'' of
                      Some start \<Rightarrow> if truthy start then start else created
                    | None \<Rightarrow> created)
               | _ \<Rightarrow> created))))"
proof (intro conjI impI)
  assume "read_message st (msgs, first) (Some message) = Inr (msgs', first')"
  then show "\<exists>new. msgs' = msgs @ new \<and>
         (\<forall>t \<in> set new. \<exists>message_time created mid parts part.
            map_of message ''time'' = Some (JObj message_time) \<and>
            map_of message_time ''created'' = Some created \<and> truthy created \<and>
            map_of message ''id'' = Some (JStr mid) \<and> part_dir st mid = Some parts \<and>
            Some part \<in> set parts \<and>
            extract_part_text part = Inr (Some (p_text t)) \<and>
            p_timestamp_ms t =
              (case map_of part ''time'' of
                 Some (JObj part_time) \<Rightarrow>
                   (case map_of part_time ''start'' of
                      Some start \<Rightarrow> if truthy start then start else created
                    | None \<Rightarrow> created)
               | _ \<Rightarrow> created))"
    by (rule read_message_turn_sources [THEN conjunct1, rule_format])
next
  assume "case map_of message ''time'' of
       Some (JObj message_time) \<Rightarrow>
         (case map_of message_time ''created'' of Some created \<Rightarrow> \<not> truthy created | None \<Rightarrow> True)
     | _ \<Rightarrow> True"
  then show "read_message st (msgs, first) (Some message) = Inr (msgs, first)"
    using read_message_turn_sources [of st msgs first message] by blast
next
  assume a: "message \<noteq> [] \<and> map_of message ''time'' = Some (JObj message_time) \<and>
    map_of message_time ''created'' = Some created \<and> truthy created \<and>
    map_of message ''id'' = Some (JStr mid) \<and> mid \<noteq> [] \<and> part_dir st mid = Some parts \<and>
    (\<forall>part. Some part \<in> set parts \<longrightarrow> \<not> isl (extract_part_text part))"
  then have mt: "message_time_ms_of message = created"
    by (simp add: message_time_ms_of_cases)
  from a have id: "dict_get message ''id'' = JStr mid" by (simp add: dict_get_def)
  from a have ok: "\<forall>part. Some part \<in> set parts \<longrightarrow> \<not> isl (extract_part_text part)" by blast
  have "read_message st (msgs, first) (Some message) =
        Inr (msgs @ List.map_filter (\<lambda>p.
               case p of
                 None \<Rightarrow> None
               | Some part \<Rightarrow>
                   (case extract_part_text part of
                      Inr (Some t) \<Rightarrow>
                        Some \<lparr>p_role = dict_get message ''role'', p_text = t,
                              p_timestamp_ms = get_part_timestamp part created,
                              p_agent = dict_get_or message ''agent'' (JStr [])\<rparr>
                    | _ \<Rightarrow> None)) parts,
             if first = JNull then created else first)"
    using a
    by (simp add: read_message_def Let_def mt id read_parts_exact [OF ok])
  then show "read_message st (msgs, first) (Some message) =
        Inr (msgs @ List.map_filter (\<lambda>p.
               case p of
                 None \<Rightarrow> None
               | Some part \<Rightarrow>
                   (case extract_part_text part of
                      Inr (Some t) \<Rightarrow>
                        Some \<lparr>p_role = dict_get message ''role'', p_text = t,
                              p_timestamp_ms =
                                (case map_of part ''time'' of
                                   Some (JObj part_time) \<Rightarrow>
                                     (case map_of part_time ''start'' of
                                        Some start \<Rightarrow> if truthy start then start else created
                                      | None \<Rightarrow> created)
                                 | _ \<Rightarrow> created),
                              p_agent = dict_get_or message ''agent'' (JStr [])\<rparr>
                    | _ \<Rightarrow> None)) parts,
             if first = JNull then created else first)"
    unfolding get_part_timestamp_cases .
qed


text \<open>
  In the example storage the part of message \<open>m1\<close> has a \<open>time.start\<close>, which its turn
  takes; message \<open>m2\<close> has a text part without a time, whose turn takes the time of the
  message, and a tool part, which yields no turn; message \<open>m4\<close>, created at 0, is skipped.
\<close>

theorem part_timestamp_fallback_witness:
  "read_message demo_storage ([], JNull) (Some (demo_message 1)) =
     Inr ([\<lparr>p_role = JStr ''user'', p_text = ''hey'', p_timestamp_ms = JInt 1704103500005,
            p_agent = JStr []\<rparr>], JInt 1704103500000) \<and>
   read_message demo_storage ([], JNull) (Some (demo_message 2)) =
     Inr ([\<lparr>p_role = JStr ''assistant'', p_text = ''planning'',
            p_timestamp_ms = JInt 1704103560000, p_agent = JStr ''Planner-Sisyphus''\<rparr>],
          JInt 1704103560000) \<and>
   read_message demo_storage ([], JNull) (Some (demo_message 4)) = Inr ([], JNull)"
proof -
  let ?p1 = "[(''type'', JStr ''text''), (''text'', JStr ''hey''),
              (''time'', JObj [(''start'', JInt 1704103500005)])]"
  let ?p2 = "[(''type'', JStr ''text''), (''text'', JStr ''planning'')]"
  let ?p3 = "[(''type'', JStr ''tool''), (''text'', JStr ''ls'')]"
  note pt = part_timestamp_fallback [where st = demo_storage and msgs = "[]" and first = JNull]
  have m1: "demo_message 1 \<noteq> []"
    "map_of (demo_message 1) ''time'' = Some (JObj [(''created'', JInt 1704103500000)])"
    "map_of [(''created'', JInt 1704103500000)] ''created'' = Some (JInt 1704103500000)"
    "truthy (JInt 1704103500000)"
    "map_of (demo_message 1) ''id'' = Some (JStr ''m1'')" "''m1'' \<noteq> []"
    "part_dir demo_storage ''m1'' = Some [Some ?p1]"
    by code_simp+
  have e1: "\<not> isl (extract_part_text ?p1)" by code_simp
  have ok1: "\<forall>part. Some part \<in> set [Some ?p1] \<longrightarrow> \<not> isl (extract_part_text part)"
    using e1 by simp
  have r1: "List.map_filter (\<lambda>p.
               case p of
                 None \<Rightarrow> None
               | Some part \<Rightarrow>
                   (case extract_part_text part of
                      Inr (Some t) \<Rightarrow>
                        Some \<lparr>p_role = dict_get (demo_message 1) ''role'', p_text = t,
                              p_timestamp_ms =
                                (case map_of part ''time'' of
                                   Some (JObj part_time) \<Rightarrow>
                                     (case map_of part_time ''start'' of
                                        Some start \<Rightarrow>
                                          if truthy start then start else JInt 1704103500000
                                      | None \<Rightarrow> JInt 1704103500000)
                                 | _ \<Rightarrow> JInt 1704103500000),
                              p_agent = dict_get_or (demo_message 1) ''agent'' (JStr [])\<rparr>
                    | _ \<Rightarrow> None)) [Some ?p1] =
      [\<lparr>p_role = JStr ''user'', p_text = ''hey'', p_timestamp_ms = JInt 1704103500005,
            p_agent = JStr []\<rparr>]"
    by code_simp
  have a: "read_message demo_storage ([], JNull) (Some (demo_message 1)) =
     Inr ([\<lparr>p_role = JStr ''user'', p_text = ''hey'', p_timestamp_ms = JInt 1704103500005,
            p_agent = JStr []\<rparr>], JInt 1704103500000)"
    using pt [where message = "demo_message 1", THEN conjunct1, rule_format,
        OF conjI [OF m1(1) conjI [OF m1(2) conjI [OF m1(3) conjI [OF m1(4) conjI [OF m1(5)
           conjI [OF m1(6) conjI [OF m1(7) ok1]]]]]]]]
    unfolding r1 by simp
  have m2: "demo_message 2 \<noteq> []"
    "map_of (demo_message 2) ''time'' = Some (JObj [(''created'', JInt 1704103560000)])"
    "map_of [(''created'', JInt 1704103560000)] ''created'' = Some (JInt 1704103560000)"
    "truthy (JInt 1704103560000)"
    "map_of (demo_message 2) ''id'' = Some (JStr ''m2'')" "''m2'' \<noteq> []"
    "part_dir demo_storage ''m2'' = Some [Some ?p2, Some ?p3]"
    by code_simp+
  have e2: "\<not> isl (extract_part_text ?p2)" "\<not> isl (extract_part_text ?p3)" by code_simp+
  have ok2: "\<forall>part. Some part \<in> set [Some ?p2, Some ?p3] \<longrightarrow> \<not> isl (extract_part_text part)"
    using e2 by auto
  have r2: "List.map_filter (\<lambda>p.
               case p of
                 None \<Rightarrow> None
               | Some part \<Rightarrow>
                   (case extract_part_text part of
                      Inr (Some t) \<Rightarrow>
                        Some \<lparr>p_role = dict_get (demo_message 2) ''role'', p_text = t,
                              p_timestamp_ms =
                                (case map_of part ''time'' of
                                   Some (JObj part_time) \<Rightarrow>
                                     (case map_of part_time ''start'' of
                                        Some start \<Rightarrow>
                                          if truthy start then start else JInt 1704103560000
                                      | None \<Rightarrow> JInt 1704103560000)
                                 | _ \<Rightarrow> JInt 1704103560000),
                              p_agent = dict_get_or (demo_message 2) ''agent'' (JStr [])\<rparr>
                    | _ \<Rightarrow> None)) [Some ?p2, Some ?p3] =
      [\<lparr>p_role = JStr ''assistant'', p_text = ''planning'',
            p_timestamp_ms = JInt 1704103560000, p_agent = JStr ''Planner-Sisyphus''\<rparr>]"
    by code_simp
  have b: "read_message demo_storage ([], JNull) (Some (demo_message 2)) =
     Inr ([\<lparr>p_role = JStr ''assistant'', p_text = ''planning'',
            p_timestamp_ms = JInt 1704103560000, p_agent = JStr ''Planner-Sisyphus''\<rparr>],
          JInt 1704103560000)"
    using pt [where message = "demo_message 2", THEN conjunct1, rule_format,
        OF conjI [OF m2(1) conjI [OF m2(2) conjI [OF m2(3) conjI [OF m2(4) conjI [OF m2(5)
           conjI [OF m2(6) conjI [OF m2(7) ok2]]]]]]]]
    unfolding r2 by simp
  have s: "case map_of (demo_message 4) ''time'' of
       Some (JObj message_time) \<Rightarrow>
         (case map_of message_time ''created'' of Some created \<Rightarrow> \<not> truthy created | None \<Rightarrow> True)
     | _ \<Rightarrow> True"
    by code_simp
  have c: "read_message demo_storage ([], JNull) (Some (demo_message 4)) = Inr ([], JNull)"
    by (rule pt [where message = "demo_message 4", THEN conjunct2, THEN conjunct1,
          rule_format, OF s])
  from a b c show ?thesis by blast
qed

lemma split_on_no_sep: "sep \<notin> set s \<Longrightarrow> split_on sep s = [s]"
  by (induction s) auto

lemma last_split_on: "last (split_on sep s) = rev (takeWhile (\<lambda>c. c \<noteq> sep) (rev s))"
proof (induction s)
  case Nil show ?case by simp
next
  case (Cons c cs)
  show ?case
  proof (cases "c = sep")
    case True
    then show ?thesis
      using Cons split_on_nonempty [of sep cs] by (simp add: takeWhile_append)
  next
    case False
    show ?thesis
    proof (cases "sep \<in> set cs")
      case True
      then have tw: "takeWhile (\<lambda>c. c \<noteq> sep) (rev cs @ [c]) = takeWhile (\<lambda>c. c \<noteq> sep) (rev cs)"
        by (auto simp: takeWhile_append)
      obtain l ls where sp: "split_on sep cs = l # ls"
        using split_on_nonempty [of sep cs] by (cases "split_on sep cs") auto
      have "ls \<noteq> []"
      proof
        assume "ls = []"
        with sp have "split_on sep cs = [l]" by simp
        moreover have "length (split_on sep xs) = Suc (length (filter (\<lambda>c. c = sep) xs))" for xs
          by (induction xs) (auto split: list.splits)
        ultimately have "filter (\<lambda>c. c = sep) cs = []" by (metis length_0_conv length_Cons nat.inject)
        with True show False by (auto simp: filter_empty_conv)
      qed
      with Cons False sp tw show ?thesis by simp
    next
      case nosep: False
      have tw: "takeWhile (\<lambda>c. c \<noteq> sep) (rev cs @ [c]) = rev cs @ [c]"
        unfolding takeWhile_eq_all_conv using nosep False by auto
      show ?thesis using nosep False by (simp add: split_on_no_sep tw)
    qed
  qed
qed

lemma speaker_of_step:
  assumes "speaker_of m amap = Inr (sp, amap1)"
  shows "(case agent_base m of
            Some b \<Rightarrow> sp = assistant_label (first_seen_casing amap [] b) \<and>
                      amap1 = (if amap (lower b) = None then amap(lower b \<mapsto> b) else amap)
          | None \<Rightarrow> amap1 = amap)"
proof (cases "p_role m = JStr ''user''")
  case True
  with assms show ?thesis by (simp add: speaker_of_def agent_base_def)
next
  case False
  show ?thesis
  proof (cases "truthy (p_agent m)")
    case nt: False
    then have "agent_base m = None"
      by (cases "p_agent m") (auto simp: agent_base_def)
    with assms False nt show ?thesis
      by (simp add: speaker_of_def normalize_agent_name_def)
  next
    case True
    with assms False obtain a where a: "p_agent m = JStr a" "a \<noteq> []"
      by (cases "p_agent m") (auto simp: speaker_of_def normalize_agent_name_def)
    have b: "agent_base m = Some (last_segment a)"
      using False a by (simp add: agent_base_def)
    have l: "last (split_on CHR ''-'' a) = last_segment a"
      by (simp add: last_split_on last_segment_def)
    from assms False a show ?thesis
      unfolding b
      by (auto simp: speaker_of_def normalize_agent_name_def Let_def split_on_nonempty l
          first_seen_casing_def assistant_label_def split: option.splits)
  qed
qed

lemma first_seen_casing_step:
  "first_seen_casing (if amap (lower b) = None then amap(lower b \<mapsto> b) else amap) bs b' =
   first_seen_casing amap (b # bs) b'"
  by (auto simp: first_seen_casing_def split: option.splits)

lemma render_messages_length:
  "render_messages pf amap msgs = Inr (lines, amap') \<Longrightarrow> length lines = 3 * length msgs"
  by (induction msgs arbitrary: amap lines) (auto split: sum.splits prod.splits)

lemma render_messages_first_seen:
  assumes "render_messages pf amap msgs = Inr (lines, amap')"
    and "i < length msgs"
    and "agent_base (msgs ! i) = Some base"
  shows "lines ! (3 * i) =
    ''['' @ format_timestamp_ms pf (p_timestamp_ms (msgs ! i)) @ ''] '' @
    assistant_label (first_seen_casing amap (List.map_filter agent_base (take i msgs)) base) @ '':''"
  using assms
proof (induction msgs arbitrary: amap lines i)
  case Nil
  then show ?case by simp
next
  case (Cons m msgs)
  from Cons.prems(1) obtain sp amap1 rest where
    sp: "speaker_of m amap = Inr (sp, amap1)" and
    rest: "render_messages pf amap1 msgs = Inr (rest, amap')" and
    lines: "lines = [''['' @ format_timestamp_ms pf (p_timestamp_ms m) @ ''] '' @ sp @ '':'',
                     collapse_code_blocks (p_text m), []] @ rest"
    by (auto split: sum.splits prod.splits)
  note step = speaker_of_step [OF sp]
  show ?case
  proof (cases i)
    case 0
    with Cons.prems(3) step lines show ?thesis by (simp add: map_filter_simps)
  next
    case (Suc j)
    with Cons.prems have j: "j < length msgs" "agent_base (msgs ! j) = Some base" by simp_all
    have nth: "lines ! (3 * i) = rest ! (3 * j)" using lines Suc by simp
    note ih = Cons.IH [OF rest j]
    show ?thesis
    proof (cases "agent_base m")
      case None
      with step have "amap1 = amap" by simp
      with ih nth None Suc show ?thesis by (simp add: map_filter_simps)
    next
      case (Some b)
      with step have "amap1 = (if amap (lower b) = None then amap(lower b \<mapsto> b) else amap)"
        by simp
      with ih nth Some Suc show ?thesis
        by (simp add: map_filter_simps first_seen_casing_step)
    qed
  qed
qed

section \<open>Properties of the session conversion\<close>

lemma convert_jsonl_empty:
  assumes "read_records init_scan records = Inr sc" "messages sc = []"
  shows "convert_jsonl pf c (Some records) metadata =
           Inr (False, say (Warning ''No messages extracted'') c)"
  using assms by (simp add: convert_jsonl_def)

lemma convert_jsonl_duplicate:
  assumes "read_records init_scan records = Inr sc" "messages sc \<noteq> []"
    and "truthy (session_id sc)" "set_key (session_id sc) = Inr k" "k \<in> processed_sessions c"
  shows "convert_jsonl pf c (Some records) metadata =
           Inr (False, say (Warning ''Session already processed, skipping'') c)"
  using assms by (simp add: convert_jsonl_def)

lemma write_session_True:
  "write_session pf fname lines n c = (True, c') \<Longrightarrow>
   c' = say (Converted fname n) (c\<lparr>files := (files c)(fname \<mapsto> join_nl lines)\<rparr>)"
  by (auto simp: write_session_def split: if_splits)

lemma convert_jsonl_success:
  assumes "convert_jsonl pf c file metadata = Inr (True, c')"
  shows "\<exists>records sc summary.
     file = Some records \<and> read_records init_scan records = Inr sc \<and> messages sc \<noteq> [] \<and>
     get_summary metadata (first_user_message sc) = JStr summary \<and>
     (truthy (session_id sc) \<longrightarrow> (\<exists>k. set_key (session_id sc) = Inr k \<and> k \<notin> processed_sessions c \<and>
        k \<in> processed_sessions c')) \<and>
     files c' (output_filename_of (date_str_of pf sc) (time_str_of pf sc) (slugify summary)) =
       Some (join_nl (header_lines pf sc summary @ concat (map (render_message pf) (messages sc))))"
proof -
  from assms obtain records where f: "file = Some records"
    by (cases "file") (auto simp: convert_jsonl_def)
  from assms f obtain sc where r: "read_records init_scan records = Inr sc"
    by (cases "read_records init_scan records") (auto simp: convert_jsonl_def)
  from assms f r have ne: "messages sc \<noteq> []"
    by (auto simp: convert_jsonl_def split: if_splits)
  from assms f r ne obtain k where
    k: "(if truthy (session_id sc) then set_key (session_id sc) else Inr JNull) = Inr k"
    by (cases "if truthy (session_id sc) then set_key (session_id sc) else Inr JNull")
       (auto simp: convert_jsonl_def)
  from assms f r ne k have nd: "\<not> (truthy (session_id sc) \<and> k \<in> processed_sessions c)"
    by (auto simp: convert_jsonl_def split: if_splits)
  from assms f r ne k nd obtain summary where
    s: "get_summary metadata (first_user_message sc) = JStr summary"
    by (cases "get_summary metadata (first_user_message sc)")
       (auto simp: convert_jsonl_def Let_def)
  let ?c1 = "if truthy (session_id sc)
             then c\<lparr>processed_sessions := insert k (processed_sessions c)\<rparr> else c"
  let ?fname = "output_filename_of (date_str_of pf sc) (time_str_of pf sc) (slugify summary)"
  let ?lines = "header_lines pf sc summary @ concat (map (render_message pf) (messages sc))"
  from assms f r ne k nd s have
    w: "write_session pf ?fname ?lines (length (messages sc)) ?c1 = (True, c')"
    by (simp add: convert_jsonl_def Let_def)
  note c' = write_session_True [OF w]
  have "files c' ?fname = Some (join_nl ?lines)" by (simp add: c' say_def)
  moreover have "truthy (session_id sc) \<longrightarrow>
     (\<exists>k. set_key (session_id sc) = Inr k \<and> k \<notin> processed_sessions c \<and> k \<in> processed_sessions c')"
    using k nd by (auto simp: c' say_def)
  ultimately show ?thesis using f r ne s by blast
qed

lemma convert_directory_skip:
  "convert_jsonl pf c file metadata = Inr (False, c') \<Longrightarrow>
   convert_directory pf c ((file, metadata) # rest) = convert_directory pf c' rest"
  by (auto split: sum.splits prod.splits)

lemma convert_session_duplicate:
  assumes "session \<noteq> []" "\<not> truthy (dict_get session ''parentID'')"
    and "set_key (dict_get session ''id'') = Inr k" "k \<in> processed_sessions c"
  shows "convert_session pf st c (Some session) = Inr (False, c)"
  using assms by (simp add: convert_session_def Let_def)

lemma set_key_JStr: "set_key (JStr s) = Inr (JStr s)"
  by simp

lemma convert_session_empty:
  assumes "session \<noteq> []" "\<not> truthy (dict_get session ''parentID'')"
    and "dict_get session ''id'' = JStr sid" "sid \<noteq> []"
    and "JStr sid \<notin> processed_sessions c"
    and "message_dir st sid = Some message_files"
    and "read_messages st ([], JNull) message_files = Inr ([], first)"
  shows "convert_session pf st c (Some session) =
           Inr (False, c\<lparr>processed_sessions := insert (JStr sid) (processed_sessions c)\<rparr>)"
  using assms by (simp add: convert_session_def Let_def)

lemma convert_session_success:
  assumes "convert_session pf st c (Some session) = Inr (True, c')"
  shows "\<exists>sid message_files msgs first sorted_msgs title lines amap.
     session \<noteq> [] \<and> \<not> truthy (dict_get session ''parentID'') \<and>
     dict_get session ''id'' = JStr sid \<and> sid \<noteq> [] \<and>
     JStr sid \<notin> processed_sessions c \<and>
     JStr sid \<in> processed_sessions c' \<and>
     message_dir st sid = Some message_files \<and>
     read_messages st ([], JNull) message_files = Inr (msgs, first) \<and> msgs \<noteq> [] \<and>
     truthy first \<and>
     sort_messages msgs = Inr sorted_msgs \<and>
     dict_get_or session ''title'' (JStr ''Untitled Session'') = JStr title \<and>
     render_messages pf (agent_case_map c) sorted_msgs = Inr (lines, amap) \<and>
     agent_case_map c' = amap \<and>
     files c' (output_filename_of (get_date_from_ms pf first) (get_time_from_ms pf first)
                 (slugify title)) =
       Some (join_nl (session_header pf title (JStr sid) first (length sorted_msgs) @ lines))"
proof -
  note d = convert_session_def Let_def
  from assms have ne: "session \<noteq> []" and np: "\<not> truthy (dict_get session ''parentID'')"
    by (auto simp: d split: if_splits)
  from assms ne np obtain k where k: "set_key (dict_get session ''id'') = Inr k"
    by (cases "set_key (dict_get session ''id'')") (auto simp: d)
  from assms ne np k have nk: "k \<notin> processed_sessions c" and t: "truthy (dict_get session ''id'')"
    by (auto simp: d split: if_splits)
  from assms ne np k nk t obtain sid where sid: "dict_get session ''id'' = JStr sid"
    by (cases "dict_get session ''id''") (auto simp: d)
  from k sid have kk: "k = JStr sid" by simp
  from t sid have sne: "sid \<noteq> []" by simp
  let ?c1 = "c\<lparr>processed_sessions := insert (JStr sid) (processed_sessions c)\<rparr>"
  from assms ne np sid nk kk sne obtain message_files where
    mf: "message_dir st sid = Some message_files"
    by (cases "message_dir st sid") (auto simp: d)
  from assms ne np sid nk kk sne mf have mne: "message_files \<noteq> []"
    by (auto simp: d split: if_splits)
  from assms ne np sid nk kk sne mf mne obtain msgs first where
    rm: "read_messages st ([], JNull) message_files = Inr (msgs, first)"
    by (cases "read_messages st ([], JNull) message_files") (auto simp: d)
  from assms ne np sid nk kk sne mf mne rm have msne: "msgs \<noteq> []"
    by (auto simp: d split: if_splits)
  from assms ne np sid nk kk sne mf mne rm msne obtain sorted_msgs where
    so: "sort_messages msgs = Inr sorted_msgs"
    by (cases "sort_messages msgs") (auto simp: d)
  from assms ne np sid nk kk sne mf mne rm msne so have tf: "truthy first"
    by (auto simp: d split: if_splits)
  from assms ne np sid nk kk sne mf mne rm msne so tf obtain title where
    ti: "dict_get_or session ''title'' (JStr ''Untitled Session'') = JStr title"
    by (cases "dict_get_or session ''title'' (JStr ''Untitled Session'')") (auto simp: d)
  from assms ne np sid nk kk sne mf mne rm msne so tf ti obtain lines amap where
    re: "render_messages pf (agent_case_map c) sorted_msgs = Inr (lines, amap)"
    by (cases "render_messages pf (agent_case_map c) sorted_msgs") (auto simp: d)
  let ?fname = "output_filename_of (get_date_from_ms pf first) (get_time_from_ms pf first)
                  (slugify title)"
  let ?lines = "session_header pf title (JStr sid) first (length sorted_msgs) @ lines"
  from assms ne np sid nk kk sne mf mne rm msne so tf ti re have
    w: "write_session pf ?fname ?lines (length sorted_msgs) (?c1\<lparr>agent_case_map := amap\<rparr>)
          = (True, c')"
    by (simp add: d)
  note c' = write_session_True [OF w]
  have "files c' ?fname = Some (join_nl ?lines)" by (simp add: c' say_def)
  moreover have "JStr sid \<in> processed_sessions c'" by (simp add: c' say_def)
  moreover have "agent_case_map c' = amap" by (simp add: c' say_def)
  ultimately show ?thesis using ne np sid sne nk kk mf rm msne tf so ti re by blast
qed

lemma convert_storage_skip:
  "convert_session pf st c session_file = Inr (False, c') \<Longrightarrow>
   convert_storage pf st c (session_file # rest) = convert_storage pf st c' rest"
  by (auto split: sum.splits prod.splits)

lemma speaker_of_cases:
  "speaker_of m amap = Inr (sp, amap1) \<Longrightarrow>
   (p_role m = JStr ''user'' \<and> sp = ''User'') \<or>
   (p_role m \<noteq> JStr ''user'' \<and> (sp = ''Assistant'' \<or> (\<exists>n. n \<noteq> [] \<and> sp = ''Assistant ('' @ n @ '')'')))"
  by (auto simp: speaker_of_def split: if_splits sum.splits)

lemma render_messages_lines:
  "render_messages pf amap msgs = Inr (lines, amap') \<Longrightarrow>
   \<exists>speakers. length speakers = length msgs \<and>
     lines = concat (map (\<lambda>(m, sp).
       [''['' @ format_timestamp_ms pf (p_timestamp_ms m) @ ''] '' @ sp @ '':'',
        collapse_code_blocks (p_text m), []]) (zip msgs speakers)) \<and>
     (\<forall>(m, sp) \<in> set (zip msgs speakers).
        (p_role m = JStr ''user'' \<and> sp = ''User'') \<or>
        (p_role m \<noteq> JStr ''user'' \<and>
          (sp = ''Assistant'' \<or> (\<exists>n. n \<noteq> [] \<and> sp = ''Assistant ('' @ n @ '')''))))"
proof (induction msgs arbitrary: amap lines)
  case Nil
  then show ?case by simp
next
  case (Cons m msgs)
  from Cons.prems obtain sp amap1 rest where
    sp: "speaker_of m amap = Inr (sp, amap1)" and
    rest: "render_messages pf amap1 msgs = Inr (rest, amap')" and
    lines: "lines = [''['' @ format_timestamp_ms pf (p_timestamp_ms m) @ ''] '' @ sp @ '':'',
                     collapse_code_blocks (p_text m), []] @ rest"
    by (auto split: sum.splits prod.splits)
  from Cons.IH [OF rest] obtain speakers where
    s: "length speakers = length msgs"
       "rest = concat (map (\<lambda>(m, sp).
         [''['' @ format_timestamp_ms pf (p_timestamp_ms m) @ ''] '' @ sp @ '':'',
          collapse_code_blocks (p_text m), []]) (zip msgs speakers))"
       "\<forall>(m, sp) \<in> set (zip msgs speakers).
        (p_role m = JStr ''user'' \<and> sp = ''User'') \<or>
        (p_role m \<noteq> JStr ''user'' \<and>
          (sp = ''Assistant'' \<or> (\<exists>n. n \<noteq> [] \<and> sp = ''Assistant ('' @ n @ '')'')))"
    by blast
  show ?case
    using s lines speaker_of_cases [OF sp]
    by (intro exI [of _ "sp # speakers"]) auto
qed

lemma write_session_processed:
  "write_session pf fname lines n c = (ok, c') \<Longrightarrow> processed_sessions c' = processed_sessions c"
  by (auto simp: write_session_def say_def split: if_splits)

lemma convert_jsonl_processed_mono:
  assumes "convert_jsonl pf c file metadata = Inr (ok, c')"
  shows "processed_sessions c \<subseteq> processed_sessions c'"
proof (cases "file")
  case None
  with assms show ?thesis by (auto simp: convert_jsonl_def say_def)
next
  case (Some records)
  show ?thesis
  proof (cases "read_records init_scan records")
    case (Inl e)
    with assms Some show ?thesis by (auto simp: convert_jsonl_def say_def)
  next
    case (Inr sc)
    show ?thesis
    proof (cases "messages sc = []")
      case True
      with assms Some Inr show ?thesis by (auto simp: convert_jsonl_def say_def)
    next
      case ne: False
      show ?thesis
      proof (cases "if truthy (session_id sc) then set_key (session_id sc) else Inr JNull")
        case (Inl e)
        with assms Some Inr ne show ?thesis by (simp add: convert_jsonl_def)
      next
        case k: (Inr k)
        show ?thesis
        proof (cases "truthy (session_id sc) \<and> k \<in> processed_sessions c")
          case True
          with assms Some Inr ne k show ?thesis by (auto simp: convert_jsonl_def say_def)
        next
          case nd: False
          let ?c1 = "if truthy (session_id sc)
             then c\<lparr>processed_sessions := insert k (processed_sessions c)\<rparr> else c"
          show ?thesis
          proof (cases "get_summary metadata (first_user_message sc)")
            case (JStr summary)
            with assms Some Inr ne k nd have
              "write_session pf
                 (output_filename_of (date_str_of pf sc) (time_str_of pf sc) (slugify summary))
                 (header_lines pf sc summary @ concat (map (render_message pf) (messages sc)))
                 (length (messages sc)) ?c1 = (ok, c')"
              by (simp add: convert_jsonl_def Let_def)
            from write_session_processed [OF this] show ?thesis by auto
          qed (use assms Some Inr ne k nd in \<open>simp_all add: convert_jsonl_def Let_def\<close>)
        qed
      qed
    qed
  qed
qed

lemma convert_session_processed_mono:
  assumes "convert_session pf st c session_file = Inr (ok, c')"
  shows "processed_sessions c \<subseteq> processed_sessions c'"
proof (cases session_file)
  case None
  with assms show ?thesis by (simp add: convert_session_def)
next
  case (Some session)
  note d = convert_session_def Let_def
  show ?thesis
  proof (cases "session = [] \<or> truthy (dict_get session ''parentID'')")
    case True
    with assms Some have "c' = c" by (auto simp: d split: if_splits)
    then show ?thesis by simp
  next
    case False
    then have ne: "session \<noteq> []" and np: "\<not> truthy (dict_get session ''parentID'')" by auto
    show ?thesis
    proof (cases "dict_get session ''id''")
      case JNull
      with assms Some ne np show ?thesis by (auto simp: d split: if_splits)
    next
      case (JBool b)
      with assms Some ne np show ?thesis by (auto simp: d split: if_splits)
    next
      case (JInt n)
      with assms Some ne np show ?thesis by (auto simp: d split: if_splits)
    next
      case (JArr xs)
      with assms Some ne np show ?thesis by (auto simp: d split: if_splits)
    next
      case (JObj kvs)
      with assms Some ne np show ?thesis by (auto simp: d split: if_splits)
    next
      case (JStr sid)
      let ?c1 = "c\<lparr>processed_sessions := insert (JStr sid) (processed_sessions c)\<rparr>"
      show ?thesis
      proof (cases "JStr sid \<in> processed_sessions c \<or> sid = []")
        case True
        with assms Some ne np JStr show ?thesis by (auto simp: d split: if_splits)
      next
        case False
        then have nk: "JStr sid \<notin> processed_sessions c" and t: "sid \<noteq> []" by auto
        show ?thesis
        proof (cases "message_dir st sid")
          case None
          with assms Some ne np nk t JStr show ?thesis by (auto simp: d)
        next
          case mf: (Some message_files)
          show ?thesis
          proof (cases "message_files = []")
            case True
            with assms Some ne np nk t JStr mf show ?thesis by (auto simp: d)
          next
            case mne: False
            show ?thesis
            proof (cases "read_messages st ([], JNull) message_files")
              case (Inl e)
              with assms Some ne np nk t JStr mf mne show ?thesis by (simp add: d)
            next
              case (Inr r)
              obtain msgs first where r: "r = (msgs, first)" by (cases r)
              note rm = Inr [unfolded r]
              show ?thesis
              proof (cases "msgs = []")
                case True
                with assms Some ne np nk t JStr mf mne rm show ?thesis by (auto simp: d)
              next
                case msne: False
                show ?thesis
                proof (cases "sort_messages msgs")
                  case (Inl e)
                  with assms Some ne np nk t JStr mf mne rm msne show ?thesis
                    by (simp add: d)
                next
                  case so: (Inr sorted_msgs)
                  show ?thesis
                  proof (cases "truthy first")
                    case False
                    with assms Some ne np nk t JStr mf mne rm msne so show ?thesis
                      by (auto simp: d)
                  next
                    case tf: True
                    show ?thesis
                    proof (cases "dict_get_or session ''title'' (JStr ''Untitled Session'')")
                      case ti: (JStr title)
                      show ?thesis
                      proof (cases "render_messages pf (agent_case_map ?c1) sorted_msgs")
                        case (Inl e)
                        with assms Some ne np nk t JStr mf mne rm msne so tf ti
                        show ?thesis by (simp add: d)
                      next
                        case (Inr q)
                        obtain lines amap where q: "q = (lines, amap)" by (cases q)
                        note re = Inr [unfolded q]
                        from assms Some ne np nk t JStr mf mne rm msne so tf ti re have
                          "write_session pf
                             (output_filename_of (get_date_from_ms pf first)
                                (get_time_from_ms pf first) (slugify title))
                             (session_header pf title (JStr sid) first (length sorted_msgs)
                                @ lines)
                             (length sorted_msgs) (?c1\<lparr>agent_case_map := amap\<rparr>) = (ok, c')"
                          by (simp add: d)
                        from write_session_processed [OF this] show ?thesis by auto
                      qed
                    qed (use assms Some ne np nk t JStr mf mne rm msne so tf in
                          \<open>simp_all add: d\<close>)
                  qed
                qed
              qed
            qed
          qed
        qed
      qed
    qed
  qed
qed

lemma say_console: "say r c = c\<lparr>console := console c @ [r]\<rparr>"
  by (simp add: say_def)

subsection \<open>Sessions without retained turns\<close>

text \<open>
  Claim C8, as amended. In both formats a session for which filtering retains no turn
  produces no output file, and the run goes on with the next session. Format A prints the
  warning \<open>No messages extracted\<close> and changes nothing else; format B prints nothing: of the
  converter's state only the set of processed session ids changes (the id is recorded), the
  output files and the console stay as they were.
\<close>

theorem empty_session_not_written:
  "(read_records init_scan records = Inr sc \<and> messages sc = [] \<longrightarrow>
      convert_jsonl pf c (Some records) metadata =
        Inr (False, c\<lparr>console := console c @ [Warning ''No messages extracted'']\<rparr>) \<and>
      convert_directory pf c ((Some records, metadata) # rest) =
        convert_directory pf (c\<lparr>console := console c @ [Warning ''No messages extracted'']\<rparr>)
          rest) \<and>
   (session \<noteq> [] \<and> \<not> truthy (dict_get session ''parentID'') \<and>
    dict_get session ''id'' = JStr sid \<and> sid \<noteq> [] \<and> JStr sid \<notin> processed_sessions cb \<and>
    message_dir st sid = Some message_files \<and>
    read_messages st ([], JNull) message_files = Inr ([], first) \<longrightarrow>
      convert_session pf st cb (Some session) =
        Inr (False, cb\<lparr>processed_sessions := insert (JStr sid) (processed_sessions cb)\<rparr>) \<and>
      convert_storage pf st cb (Some session # rest') =
        convert_storage pf st
          (cb\<lparr>processed_sessions := insert (JStr sid) (processed_sessions cb)\<rparr>) rest')"
proof (intro conjI impI)
  assume a: "read_records init_scan records = Inr sc \<and> messages sc = []"
  then show j: "convert_jsonl pf c (Some records) metadata =
        Inr (False, c\<lparr>console := console c @ [Warning ''No messages extracted'']\<rparr>)"
    using convert_jsonl_empty [of records sc pf c metadata] by (simp add: say_console)
  from convert_directory_skip [OF j]
  show "convert_directory pf c ((Some records, metadata) # rest) =
        convert_directory pf (c\<lparr>console := console c @ [Warning ''No messages extracted'']\<rparr>)
          rest" .
next
  assume b: "session \<noteq> [] \<and> \<not> truthy (dict_get session ''parentID'') \<and>
    dict_get session ''id'' = JStr sid \<and> sid \<noteq> [] \<and> JStr sid \<notin> processed_sessions cb \<and>
    message_dir st sid = Some message_files \<and>
    read_messages st ([], JNull) message_files = Inr ([], first)"
  then show s: "convert_session pf st cb (Some session) =
        Inr (False, cb\<lparr>processed_sessions := insert (JStr sid) (processed_sessions cb)\<rparr>)"
    using convert_session_empty [of session sid cb st message_files first pf] by simp
  from convert_storage_skip [OF s]
  show "convert_storage pf st cb (Some session # rest') =
        convert_storage pf st
          (cb\<lparr>processed_sessions := insert (JStr sid) (processed_sessions cb)\<rparr>) rest'" .
qed

lemma tool_session_facts:
  "tool_session \<noteq> []" "\<not> truthy (dict_get tool_session ''parentID'')"
  "dict_get tool_session ''id'' = JStr ''s3''"
  "message_dir demo_storage ''s3'' = Some [Some (demo_message 5)]"
  "read_messages demo_storage ([], JNull) [Some (demo_message 5)] = Inr ([], JInt 1704103500000)"
  by code_simp+

text \<open>
  Claim C8 as stated fails in format B: a session whose only part is a tool part retains no
  turn, the conversion returns \<open>False\<close>, and nothing has been printed.
\<close>

theorem empty_session_silent:
  "convert_session demo_platform demo_storage init_opencode_converter (Some tool_session) =
     Inr (False, init_opencode_converter\<lparr>processed_sessions :=
            insert (JStr ''s3'') (processed_sessions init_opencode_converter)\<rparr>) \<and>
   console (init_opencode_converter\<lparr>processed_sessions :=
            insert (JStr ''s3'') (processed_sessions init_opencode_converter)\<rparr>) = []"
proof -
  have "JStr ''s3'' \<notin> processed_sessions init_opencode_converter"
    by (simp add: init_opencode_converter_def)
  from convert_session_empty [OF tool_session_facts(1,2,3) _ this tool_session_facts(4,5)]
  show ?thesis by (simp add: init_opencode_converter_def)
qed

text \<open>
  A format A file with a system record and a tool result only, and the tool-only session of
  the example storage.
\<close>

theorem empty_session_not_written_witness:
  "convert_jsonl demo_platform init_converter (Some system_records) None =
     Inr (False, init_converter\<lparr>console := console init_converter @
            [Warning ''No messages extracted'']\<rparr>) \<and>
   convert_session demo_platform demo_storage init_opencode_converter (Some tool_session) =
     Inr (False, init_opencode_converter\<lparr>processed_sessions :=
            insert (JStr ''s3'') (processed_sessions init_opencode_converter)\<rparr>)"
proof -
  let ?r = "read_records init_scan system_records"
  have "\<not> isl ?r" by code_simp
  then have r: "?r = Inr (projr ?r)" by (cases ?r) auto
  have m: "messages (projr ?r) = []" by code_simp
  have n: "JStr ''s3'' \<notin> processed_sessions init_opencode_converter"
    by (simp add: init_opencode_converter_def)
  have s: "''s3'' \<noteq> []" by simp
  from empty_session_not_written [where records = system_records and sc = "projr ?r"
      and pf = demo_platform and c = init_converter and metadata = None
      and session = tool_session and sid = "''s3''" and cb = init_opencode_converter
      and st = demo_storage and message_files = "[Some (demo_message 5)]"
      and first = "JInt 1704103500000"]
    r m n s tool_session_facts
  show ?thesis by blast
qed

subsection \<open>Duplicate session identifiers\<close>

text \<open>
  Claim C2, as amended. A session identifier that is in the converter's set of processed
  sessions blocks every later session with the same identifier: the later session is skipped,
  no output file is written and the earlier output stays as it was. Format A (for a non-empty
  identifier of a session with retained turns) prints the warning \<open>Session already processed,
  skipping\<close>; format B (for a top-level session) prints nothing. A successful conversion
  leaves the session's identifier in the set, and no conversion removes an identifier from
  it.
\<close>

theorem duplicate_session_skipped:
  "(read_records init_scan records = Inr sc \<and> messages sc \<noteq> [] \<and> truthy (session_id sc) \<and>
    set_key (session_id sc) = Inr k \<and> k \<in> processed_sessions c \<longrightarrow>
      convert_jsonl pf c (Some records) metadata =
        Inr (False, c\<lparr>console := console c @
               [Warning ''Session already processed, skipping'']\<rparr>)) \<and>
   (convert_jsonl pf ca fa ma = Inr (True, ca') \<longrightarrow>
      (\<exists>ra sa. fa = Some ra \<and> read_records init_scan ra = Inr sa \<and>
         messages sa \<noteq> [] \<and>
         (truthy (session_id sa) \<longrightarrow>
            (\<exists>ka0. set_key (session_id sa) = Inr ka0 \<and> ka0 \<in> processed_sessions ca')))) \<and>
   (convert_jsonl pf cm fm mm = Inr (okm, cm') \<longrightarrow>
      processed_sessions cm \<subseteq> processed_sessions cm') \<and>
   (session \<noteq> [] \<and> \<not> truthy (dict_get session ''parentID'') \<and>
    set_key (dict_get session ''id'') = Inr kb \<and> kb \<in> processed_sessions cb \<longrightarrow>
      convert_session pf st cb (Some session) = Inr (False, cb)) \<and>
   (convert_session pf st cs (Some ss) = Inr (True, cs') \<longrightarrow>
      (\<exists>sid. dict_get ss ''id'' = JStr sid \<and> JStr sid \<in> processed_sessions cs')) \<and>
   (convert_session pf st ct ft = Inr (okt, ct') \<longrightarrow>
      processed_sessions ct \<subseteq> processed_sessions ct')"
proof (intro conjI impI)
  assume "read_records init_scan records = Inr sc \<and> messages sc \<noteq> [] \<and> truthy (session_id sc) \<and>
    set_key (session_id sc) = Inr k \<and> k \<in> processed_sessions c"
  then show "convert_jsonl pf c (Some records) metadata =
        Inr (False, c\<lparr>console := console c @
               [Warning ''Session already processed, skipping'']\<rparr>)"
    using convert_jsonl_duplicate [of records sc k c pf metadata] by (simp add: say_console)
next
  assume "convert_jsonl pf ca fa ma = Inr (True, ca')"
  from convert_jsonl_success [OF this]
  show "\<exists>ra sa. fa = Some ra \<and> read_records init_scan ra = Inr sa \<and>
         messages sa \<noteq> [] \<and>
         (truthy (session_id sa) \<longrightarrow>
            (\<exists>ka0. set_key (session_id sa) = Inr ka0 \<and> ka0 \<in> processed_sessions ca'))"
    by blast
next
  assume "convert_jsonl pf cm fm mm = Inr (okm, cm')"
  then show "processed_sessions cm \<subseteq> processed_sessions cm'"
    by (rule convert_jsonl_processed_mono)
next
  assume "session \<noteq> [] \<and> \<not> truthy (dict_get session ''parentID'') \<and>
    set_key (dict_get session ''id'') = Inr kb \<and> kb \<in> processed_sessions cb"
  then show "convert_session pf st cb (Some session) = Inr (False, cb)"
    using convert_session_duplicate [of session kb cb pf st] by simp
next
  assume "convert_session pf st cs (Some ss) = Inr (True, cs')"
  from convert_session_success [OF this]
  show "\<exists>sid. dict_get ss ''id'' = JStr sid \<and> JStr sid \<in> processed_sessions cs'"
    by blast
next
  assume "convert_session pf st ct ft = Inr (okt, ct')"
  then show "processed_sessions ct \<subseteq> processed_sessions ct'"
    by (rule convert_session_processed_mono)
qed

lemma demo_session_converted:
  "convert_session demo_platform demo_storage init_opencode_converter (Some demo_session) =
     Inr (True, snd (projr (convert_session demo_platform demo_storage init_opencode_converter
                              (Some demo_session))))"
proof -
  let ?x = "convert_session demo_platform demo_storage init_opencode_converter (Some demo_session)"
  have "\<not> isl ?x \<and> fst (projr ?x)" by code_simp
  then show ?thesis by (cases ?x) auto
qed

lemma demo_records_converted:
  "convert_jsonl demo_platform init_converter (Some demo_records) None =
     Inr (True, snd (projr (convert_jsonl demo_platform init_converter (Some demo_records) None)))"
proof -
  let ?x = "convert_jsonl demo_platform init_converter (Some demo_records) None"
  have "\<not> isl ?x \<and> fst (projr ?x)" by code_simp
  then show ?thesis by (cases ?x) auto
qed

lemma demo_session_facts:
  "demo_session \<noteq> []" "\<not> truthy (dict_get demo_session ''parentID'')"
  "dict_get demo_session ''id'' = JStr ''s2''"
  by code_simp+

text \<open>
  Claim C2 as stated fails in format B: after the example session has been converted, a second
  conversion of the same session returns \<open>False\<close> and leaves the converter as it was; the
  console still holds the one line of the first conversion, and no warning.
\<close>

theorem duplicate_session_silent:
  "convert_session demo_platform demo_storage init_opencode_converter (Some demo_session) =
     Inr (True, snd (projr (convert_session demo_platform demo_storage init_opencode_converter
                              (Some demo_session)))) \<and>
   convert_session demo_platform demo_storage
       (snd (projr (convert_session demo_platform demo_storage init_opencode_converter
                      (Some demo_session))))
       (Some demo_session) =
     Inr (False, snd (projr (convert_session demo_platform demo_storage init_opencode_converter
                               (Some demo_session)))) \<and>
   console (snd (projr (convert_session demo_platform demo_storage init_opencode_converter
                          (Some demo_session)))) =
     [Converted ''session_2024-01-01_10-05_demo.txt'' 3]"
proof -
  let ?c = "snd (projr (convert_session demo_platform demo_storage init_opencode_converter
                          (Some demo_session)))"
  from convert_session_success [OF demo_session_converted] demo_session_facts(3)
  have in_set: "JStr ''s2'' \<in> processed_sessions ?c" by auto
  have k: "set_key (dict_get demo_session ''id'') = Inr (JStr ''s2'')"
    by (simp add: demo_session_facts(3))
  have again: "convert_session demo_platform demo_storage ?c (Some demo_session) = Inr (False, ?c)"
    by (rule convert_session_duplicate [OF demo_session_facts(1,2) k in_set])
  have con: "console ?c = [Converted ''session_2024-01-01_10-05_demo.txt'' 3]" by code_simp
  from demo_session_converted again con show ?thesis by blast
qed

text \<open>The example sessions of both formats, each converted and then met again.\<close>

theorem duplicate_session_skipped_witness:
  "convert_jsonl demo_platform
       (snd (projr (convert_jsonl demo_platform init_converter (Some demo_records) None)))
       (Some demo_records) None =
     Inr (False,
       (snd (projr (convert_jsonl demo_platform init_converter (Some demo_records) None)))
         \<lparr>console :=
            console (snd (projr (convert_jsonl demo_platform init_converter
                                   (Some demo_records) None))) @
            [Warning ''Session already processed, skipping'']\<rparr>) \<and>
   convert_session demo_platform demo_storage
       (snd (projr (convert_session demo_platform demo_storage init_opencode_converter
                      (Some demo_session))))
       (Some demo_session) =
     Inr (False, snd (projr (convert_session demo_platform demo_storage init_opencode_converter
                               (Some demo_session))))"
proof -
  let ?ca = "snd (projr (convert_jsonl demo_platform init_converter (Some demo_records) None))"
  let ?cb = "snd (projr (convert_session demo_platform demo_storage init_opencode_converter
                           (Some demo_session)))"
  let ?r = "read_records init_scan demo_records"
  note dss = duplicate_session_skipped [where pf = demo_platform and st = demo_storage
      and records = demo_records and sc = "projr ?r" and k = "JStr ''s1''" and c = ?ca
      and metadata = None
      and ca = init_converter and fa = "Some demo_records" and ma = None and ca' = ?ca
      and session = demo_session and kb = "JStr ''s2''" and cb = ?cb
      and cs = init_opencode_converter and ss = demo_session and cs' = ?cb]
  have "\<not> isl ?r" by code_simp
  then have r: "?r = Inr (projr ?r)" by (cases ?r) auto
  have m: "messages (projr ?r) \<noteq> []" and t: "truthy (session_id (projr ?r))"
    and sk: "set_key (session_id (projr ?r)) = Inr (JStr ''s1'')"
    by code_simp+
  from dss [THEN conjunct2, THEN conjunct1, rule_format, OF demo_records_converted] r t sk
  have ka: "JStr ''s1'' \<in> processed_sessions ?ca" by auto
  from dss [THEN conjunct2, THEN conjunct2, THEN conjunct2, THEN conjunct2, THEN conjunct1,
      rule_format, OF demo_session_converted] demo_session_facts(3)
  have kb: "JStr ''s2'' \<in> processed_sessions ?cb" by auto
  have skb: "set_key (dict_get demo_session ''id'') = Inr (JStr ''s2'')"
    by (simp add: demo_session_facts(3))
  from dss [THEN conjunct1, rule_format] r m t sk ka
  have a: "convert_jsonl demo_platform ?ca (Some demo_records) None =
     Inr (False, ?ca\<lparr>console := console ?ca @ [Warning ''Session already processed, skipping'']\<rparr>)"
    by blast
  from dss [THEN conjunct2, THEN conjunct2, THEN conjunct2, THEN conjunct1, rule_format]
    demo_session_facts(1,2) skb kb
  have b: "convert_session demo_platform demo_storage ?cb (Some demo_session) = Inr (False, ?cb)"
    by blast
  from a b show ?thesis by blast
qed

subsection \<open>The rendered document\<close>

text \<open>
  Claim C3, as amended. The file of a successfully converted session is the lines of a header
  followed by three lines per turn, joined by newlines. The header is, in format A, the line
  \<open>=== Session: <summary> ===\<close>, the \<open>Date:\<close> line, a \<open>Project:\<close> line and a
  \<open>Session ID:\<close> line (each only when the value is truthy), the \<open>Messages:\<close> count and the
  closing \<open>===\<close> followed by an empty line; in format B it is the line
  \<open>=== Session: <title> (<slug>) ===\<close>, with the slug of the title in parentheses, the
  \<open>Date:\<close> line, the \<open>Session ID:\<close> line, the \<open>Messages:\<close> count and the same closing
  line. Each turn is the line \<open>[<time>] <Speaker>:\<close>, the normalized text and an empty line;
  \<open><time>\<close> is \<open>HH:MM\<close>, or \<open>??:??\<close> when the timestamp cannot be formatted, and
  \<open><Speaker>\<close> is \<open>User\<close>, \<open>Assistant\<close> or (format B) \<open>Assistant (<agent>)\<close>.
\<close>

theorem session_document_format:
  "(convert_jsonl pf c fa metadata = Inr (True, c') \<longrightarrow>
      (\<exists>records sc summary.
         fa = Some records \<and> read_records init_scan records = Inr sc \<and>
         get_summary metadata (first_user_message sc) = JStr summary \<and>
         files c' (output_filename_of (date_str_of pf sc) (time_str_of pf sc) (slugify summary)) =
           Some (join_nl
             ([''=== Session: '' @ summary @ '' ==='',
               ''Date: '' @ date_str_of pf sc @ '' '' @
                  replace_char CHR ''-'' '':'' (time_str_of pf sc)]
              @ (if truthy (project_path sc) then [''Project: '' @ py_str pf (project_path sc)]
                 else [])
              @ (if truthy (session_id sc) then [''Session ID: '' @ py_str pf (session_id sc)]
                 else [])
              @ [''Messages: '' @ show_nat (length (messages sc)), ''==='' @ [newline]]
              @ concat (map (\<lambda>m.
                  [''['' @ (if truthy (m_timestamp m) then format_timestamp pf (m_timestamp m)
                           else ''??:??'') @ ''] '' @
                     (if m_role m = ''user'' then ''User'' else ''Assistant'') @ '':'',
                   collapse_code_blocks (m_text m), []]) (messages sc)))))) \<and>
   (convert_session pf st cb (Some session) = Inr (True, cb') \<longrightarrow>
      (\<exists>sid message_files msgs first sorted_msgs title speakers.
         dict_get session ''id'' = JStr sid \<and> message_dir st sid = Some message_files \<and>
         read_messages st ([], JNull) message_files = Inr (msgs, first) \<and>
         sort_messages msgs = Inr sorted_msgs \<and>
         dict_get_or session ''title'' (JStr ''Untitled Session'') = JStr title \<and>
         length speakers = length sorted_msgs \<and>
         (\<forall>(m, sp) \<in> set (zip sorted_msgs speakers).
            (p_role m = JStr ''user'' \<and> sp = ''User'') \<or>
            (p_role m \<noteq> JStr ''user'' \<and>
              (sp = ''Assistant'' \<or> (\<exists>n. n \<noteq> [] \<and> sp = ''Assistant ('' @ n @ '')'')))) \<and>
         files cb' (output_filename_of (get_date_from_ms pf first) (get_time_from_ms pf first)
                      (slugify title)) =
           Some (join_nl
             ([''=== Session: '' @ title @ '' ('' @ slugify title @ '') ==='',
               ''Date: '' @ get_date_from_ms pf first @ '' '' @
                  replace_char CHR ''-'' '':'' (get_time_from_ms pf first),
               ''Session ID: '' @ sid,
               ''Messages: '' @ show_nat (length sorted_msgs),
               ''==='' @ [newline]]
              @ concat (map (\<lambda>(m, sp).
                  [''['' @ format_timestamp_ms pf (p_timestamp_ms m) @ ''] '' @ sp @ '':'',
                   collapse_code_blocks (p_text m), []]) (zip sorted_msgs speakers))))))"
proof (intro conjI impI)
  assume "convert_jsonl pf c fa metadata = Inr (True, c')"
  from convert_jsonl_success [OF this] obtain records sc summary where
    h: "fa = Some records" "read_records init_scan records = Inr sc"
       "get_summary metadata (first_user_message sc) = JStr summary"
       "files c' (output_filename_of (date_str_of pf sc) (time_str_of pf sc) (slugify summary)) =
         Some (join_nl (header_lines pf sc summary @ concat (map (render_message pf) (messages sc))))"
    by blast
  have r: "render_message pf = (\<lambda>m.
                  [''['' @ (if truthy (m_timestamp m) then format_timestamp pf (m_timestamp m)
                           else ''??:??'') @ ''] '' @
                     (if m_role m = ''user'' then ''User'' else ''Assistant'') @ '':'',
                   collapse_code_blocks (m_text m), []])"
    by (rule ext) (simp add: render_message_def Let_def)
  show "\<exists>records sc summary.
         fa = Some records \<and> read_records init_scan records = Inr sc \<and>
         get_summary metadata (first_user_message sc) = JStr summary \<and>
         files c' (output_filename_of (date_str_of pf sc) (time_str_of pf sc) (slugify summary)) =
           Some (join_nl
             ([''=== Session: '' @ summary @ '' ==='',
               ''Date: '' @ date_str_of pf sc @ '' '' @
                  replace_char CHR ''-'' '':'' (time_str_of pf sc)]
              @ (if truthy (project_path sc) then [''Project: '' @ py_str pf (project_path sc)]
                 else [])
              @ (if truthy (session_id sc) then [''Session ID: '' @ py_str pf (session_id sc)]
                 else [])
              @ [''Messages: '' @ show_nat (length (messages sc)), ''==='' @ [newline]]
              @ concat (map (\<lambda>m.
                  [''['' @ (if truthy (m_timestamp m) then format_timestamp pf (m_timestamp m)
                           else ''??:??'') @ ''] '' @
                     (if m_role m = ''user'' then ''User'' else ''Assistant'') @ '':'',
                   collapse_code_blocks (m_text m), []]) (messages sc))))"
    using h(1,2,3) h(4) [unfolded header_lines_def r]
    by (intro exI [of _ records] exI [of _ sc] exI [of _ summary]) simp
next
  assume "convert_session pf st cb (Some session) = Inr (True, cb')"
  from convert_session_success [OF this] obtain sid message_files msgs first sorted_msgs title
      lines amap where
    h: "dict_get session ''id'' = JStr sid" "message_dir st sid = Some message_files"
       "read_messages st ([], JNull) message_files = Inr (msgs, first)"
       "sort_messages msgs = Inr sorted_msgs"
       "dict_get_or session ''title'' (JStr ''Untitled Session'') = JStr title"
       "render_messages pf (agent_case_map cb) sorted_msgs = Inr (lines, amap)"
       "files cb' (output_filename_of (get_date_from_ms pf first) (get_time_from_ms pf first)
                 (slugify title)) =
         Some (join_nl (session_header pf title (JStr sid) first (length sorted_msgs) @ lines))"
    by blast
  from render_messages_lines [OF h(6)] obtain speakers where
    s: "length speakers = length sorted_msgs"
       "lines = concat (map (\<lambda>(m, sp).
         [''['' @ format_timestamp_ms pf (p_timestamp_ms m) @ ''] '' @ sp @ '':'',
          collapse_code_blocks (p_text m), []]) (zip sorted_msgs speakers))"
       "\<forall>(m, sp) \<in> set (zip sorted_msgs speakers).
          (p_role m = JStr ''user'' \<and> sp = ''User'') \<or>
          (p_role m \<noteq> JStr ''user'' \<and>
            (sp = ''Assistant'' \<or> (\<exists>n. n \<noteq> [] \<and> sp = ''Assistant ('' @ n @ '')'')))"
    by blast
  show "\<exists>sid message_files msgs first sorted_msgs title speakers.
         dict_get session ''id'' = JStr sid \<and> message_dir st sid = Some message_files \<and>
         read_messages st ([], JNull) message_files = Inr (msgs, first) \<and>
         sort_messages msgs = Inr sorted_msgs \<and>
         dict_get_or session ''title'' (JStr ''Untitled Session'') = JStr title \<and>
         length speakers = length sorted_msgs \<and>
         (\<forall>(m, sp) \<in> set (zip sorted_msgs speakers).
            (p_role m = JStr ''user'' \<and> sp = ''User'') \<or>
            (p_role m \<noteq> JStr ''user'' \<and>
              (sp = ''Assistant'' \<or> (\<exists>n. n \<noteq> [] \<and> sp = ''Assistant ('' @ n @ '')'')))) \<and>
         files cb' (output_filename_of (get_date_from_ms pf first) (get_time_from_ms pf first)
                      (slugify title)) =
           Some (join_nl
             ([''=== Session: '' @ title @ '' ('' @ slugify title @ '') ==='',
               ''Date: '' @ get_date_from_ms pf first @ '' '' @
                  replace_char CHR ''-'' '':'' (get_time_from_ms pf first),
               ''Session ID: '' @ sid,
               ''Messages: '' @ show_nat (length sorted_msgs),
               ''==='' @ [newline]]
              @ concat (map (\<lambda>(m, sp).
                  [''['' @ format_timestamp_ms pf (p_timestamp_ms m) @ ''] '' @ sp @ '':'',
                   collapse_code_blocks (p_text m), []]) (zip sorted_msgs speakers))))"
    using h(1-5) s(1,3) h(7) [unfolded session_header_def s(2) py_str_def]
    by (intro exI [of _ sid] exI [of _ message_files] exI [of _ msgs] exI [of _ first]
        exI [of _ sorted_msgs] exI [of _ title] exI [of _ speakers]) simp
qed

text \<open>
  Claim C3 as stated fails in format B: the document of the example session, titled
  \<open>Demo\<close>, begins with \<open>=== Session: Demo (demo) ===\<close>, not with
  \<open>=== Session: Demo ===\<close>.
\<close>

theorem session_header_has_slug:
  "files (snd (projr (convert_session demo_platform demo_storage init_opencode_converter
                        (Some demo_session))))
     ''session_2024-01-01_10-05_demo.txt'' =
   Some (join_nl
     [''=== Session: Demo (demo) ==='', ''Date: 2024-01-01 10:05'', ''Session ID: s2'',
      ''Messages: 3'', ''==='' @ [newline],
      ''[10:05] User:'', ''hey'', [],
      ''[10:06] Assistant (Sisyphus):'', ''planning'', [],
      ''[10:07] Assistant (Sisyphus):'', ''done'', []])"
  by code_simp

text \<open>The example sessions of both formats, converted from a fresh converter.\<close>

theorem session_document_format_witness:
  "(\<exists>records sc summary.
         (Some demo_records) = Some records \<and> read_records init_scan records = Inr sc \<and>
         get_summary None (first_user_message sc) = JStr summary \<and>
         files (snd (projr (convert_jsonl demo_platform init_converter (Some demo_records) None)))
           (output_filename_of (date_str_of demo_platform sc) (time_str_of demo_platform sc)
              (slugify summary)) =
           Some (join_nl
             ([''=== Session: '' @ summary @ '' ==='',
               ''Date: '' @ date_str_of demo_platform sc @ '' '' @
                  replace_char CHR ''-'' '':'' (time_str_of demo_platform sc)]
              @ (if truthy (project_path sc)
                 then [''Project: '' @ py_str demo_platform (project_path sc)] else [])
              @ (if truthy (session_id sc)
                 then [''Session ID: '' @ py_str demo_platform (session_id sc)] else [])
              @ [''Messages: '' @ show_nat (length (messages sc)), ''==='' @ [newline]]
              @ concat (map (\<lambda>m.
                  [''['' @ (if truthy (m_timestamp m)
                           then format_timestamp demo_platform (m_timestamp m)
                           else ''??:??'') @ ''] '' @
                     (if m_role m = ''user'' then ''User'' else ''Assistant'') @ '':'',
                   collapse_code_blocks (m_text m), []]) (messages sc))))) \<and>
   (\<exists>sid message_files msgs first sorted_msgs title speakers.
         dict_get demo_session ''id'' = JStr sid \<and>
         message_dir demo_storage sid = Some message_files \<and>
         read_messages demo_storage ([], JNull) message_files = Inr (msgs, first) \<and>
         sort_messages msgs = Inr sorted_msgs \<and>
         dict_get_or demo_session ''title'' (JStr ''Untitled Session'') = JStr title \<and>
         length speakers = length sorted_msgs \<and>
         (\<forall>(m, sp) \<in> set (zip sorted_msgs speakers).
            (p_role m = JStr ''user'' \<and> sp = ''User'') \<or>
            (p_role m \<noteq> JStr ''user'' \<and>
              (sp = ''Assistant'' \<or> (\<exists>n. n \<noteq> [] \<and> sp = ''Assistant ('' @ n @ '')'')))) \<and>
         files (snd (projr (convert_session demo_platform demo_storage init_opencode_converter
            (Some demo_session))))
           (output_filename_of (get_date_from_ms demo_platform first)
              (get_time_from_ms demo_platform first) (slugify title)) =
           Some (join_nl
             ([''=== Session: '' @ title @ '' ('' @ slugify title @ '') ==='',
               ''Date: '' @ get_date_from_ms demo_platform first @ '' '' @
                  replace_char CHR ''-'' '':'' (get_time_from_ms demo_platform first),
               ''Session ID: '' @ sid,
               ''Messages: '' @ show_nat (length sorted_msgs),
               ''==='' @ [newline]]
              @ concat (map (\<lambda>(m, sp).
                  [''['' @ format_timestamp_ms demo_platform (p_timestamp_ms m) @ ''] '' @
                     sp @ '':'',
                   collapse_code_blocks (p_text m), []]) (zip sorted_msgs speakers)))))"
proof -
  note f = session_document_format [where pf = demo_platform and st = demo_storage
      and c = init_converter and fa = "Some demo_records" and metadata = None
      and c' = "snd (projr (convert_jsonl demo_platform init_converter (Some demo_records) None))"
      and cb = init_opencode_converter and session = demo_session
      and cb' = "snd (projr (convert_session demo_platform demo_storage init_opencode_converter
                               (Some demo_session)))"]
  show ?thesis
    by (rule conjI)
       (rule f [THEN conjunct1, rule_format, OF demo_records_converted],
        rule f [THEN conjunct2, rule_format, OF demo_session_converted])
qed

end
